theory Spec2Isabelle
  imports Main "HOL-Library.Word" "HOL-Library.AList"
begin

section \<open>The PTY bridge \<^verbatim>\<open>pty_bridge.py\<close>: a shallow embedding\<close>

text \<open>
  The bridge opens a pseudo-terminal, spawns a shell on its slave side and then copies
  bytes between its own standard streams and the master side, intercepting chunks that
  start with \<^verbatim>\<open>###RESIZE###\<close>.  Everything the program does is a call into the operating
  system or the Python runtime.  The embedding makes these calls explicit: every call is
  appended to a trace together with the exception it raised (if any), and the answer of
  each call is read from an environment record.  Python exceptions are values.
\<close>

subsection \<open>Bytes, text and exceptions\<close>

type_synonym bytes = "char list"     \<comment> \<open>Python \<^verbatim>\<open>bytes\<close>: a \<^typ>\<open>char\<close> is one byte\<close>
type_synonym str = "nat list"        \<comment> \<open>Python \<^verbatim>\<open>str\<close>: a list of Unicode code points\<close>
type_synonym fd = int

datatype exn =
    OSError                 \<comment> \<open>\<^verbatim>\<open>OSError\<close> and all its subclasses\<close>
  | ValueError
  | UnicodeDecodeError      \<comment> \<open>a subclass of \<^verbatim>\<open>ValueError\<close>\<close>
  | StructError             \<comment> \<open>\<^verbatim>\<open>struct.error\<close>, a direct subclass of \<^verbatim>\<open>Exception\<close>\<close>
  | KeyboardInterrupt       \<comment> \<open>a \<^verbatim>\<open>BaseException\<close> that is not an \<^verbatim>\<open>Exception\<close>\<close>
  | SystemExit int          \<comment> \<open>likewise\<close>

text \<open>What \<^verbatim>\<open>except Exception\<close> and \<^verbatim>\<open>except OSError\<close> catch.\<close>

fun is_Exception :: "exn \<Rightarrow> bool" where
  "is_Exception KeyboardInterrupt = False"
| "is_Exception (SystemExit _) = False"
| "is_Exception _ = True"

fun is_OSError :: "exn \<Rightarrow> bool" where
  "is_OSError OSError = True"
| "is_OSError _ = False"

subsection \<open>The Python runtime: \<^verbatim>\<open>bytes.decode\<close>, \<^verbatim>\<open>str.strip\<close>, \<^verbatim>\<open>str.split\<close>, \<^verbatim>\<open>int\<close>\<close>

text \<open>
  The Unicode character database of the interpreter is not part of the repository and
  changes between Python versions.  Its two tables that the resize parser consults are
  parameters: which code points from 128 on are white space, and the decimal value of the
  code points from 127 on that are decimal digits.  The ASCII part is fixed by CPython
  and written out below.
\<close>

record unicodedb =
  isspace_hi :: "nat \<Rightarrow> bool"
  todecimal_hi :: "nat \<Rightarrow> nat option"

definition ascii_db :: unicodedb where
  "ascii_db = \<lparr>isspace_hi = (\<lambda>_. False), todecimal_hi = (\<lambda>_. None)\<rparr>"

text \<open>\<^verbatim>\<open>bytes.startswith\<close> and the slice \<^verbatim>\<open>data[n:]\<close> is \<^const>\<open>drop\<close>.\<close>

definition startswith :: "'a list \<Rightarrow> 'a list \<Rightarrow> bool" where
  "startswith s p = (take (length p) s = p)"

text \<open>Strict UTF-8, as \<^verbatim>\<open>bytes.decode()\<close> with its defaults: no overlong forms, no
  surrogates, nothing above U+10FFFF, no truncated sequence.\<close>

definition cont :: "char \<Rightarrow> bool" where
  "cont c = (128 \<le> (of_char c :: nat) \<and> (of_char c :: nat) \<le> 191)"

definition lo6 :: "char \<Rightarrow> nat" where
  "lo6 c = (of_char c :: nat) mod 64"

definition cons_ok :: "'a \<Rightarrow> exn + 'a list \<Rightarrow> exn + 'a list" where
  "cons_ok x r = (case r of Inl e \<Rightarrow> Inl e | Inr xs \<Rightarrow> Inr (x # xs))"

fun decode :: "bytes \<Rightarrow> exn + str" where
  "decode [] = Inr []"
| "decode (b # bs) =
     (let n = (of_char b :: nat) in
      if n < 128 then cons_ok n (decode bs)
      else if 194 \<le> n \<and> n \<le> 223 then
        (case bs of
           c1 # r \<Rightarrow>
             if cont c1 then cons_ok ((n mod 32) * 64 + lo6 c1) (decode r)
             else Inl UnicodeDecodeError
         | _ \<Rightarrow> Inl UnicodeDecodeError)
      else if 224 \<le> n \<and> n \<le> 239 then
        (case bs of
           c1 # c2 # r \<Rightarrow>
             if cont c1 \<and> cont c2
                \<and> (if n = 224 then 160 \<le> (of_char c1 :: nat) else True)
                \<and> (if n = 237 then (of_char c1 :: nat) \<le> 159 else True)
             then cons_ok ((n mod 16) * 4096 + lo6 c1 * 64 + lo6 c2) (decode r)
             else Inl UnicodeDecodeError
         | _ \<Rightarrow> Inl UnicodeDecodeError)
      else if 240 \<le> n \<and> n \<le> 244 then
        (case bs of
           c1 # c2 # c3 # r \<Rightarrow>
             if cont c1 \<and> cont c2 \<and> cont c3
                \<and> (if n = 240 then 144 \<le> (of_char c1 :: nat) else True)
                \<and> (if n = 244 then (of_char c1 :: nat) \<le> 143 else True)
             then cons_ok ((n mod 8) * 262144 + lo6 c1 * 4096 + lo6 c2 * 64 + lo6 c3)
                    (decode r)
             else Inl UnicodeDecodeError
         | _ \<Rightarrow> Inl UnicodeDecodeError)
      else Inl UnicodeDecodeError)"

text \<open>\<^verbatim>\<open>Py_UNICODE_ISSPACE\<close>, used by \<^verbatim>\<open>str.strip()\<close>: below 128 the table
  \<^verbatim>\<open>_Py_ascii_whitespace\<close> (TAB, LF, VT, FF, CR, FS, GS, RS, US, space), from 128 on the
  character database.\<close>

definition unicode_isspace :: "unicodedb \<Rightarrow> nat \<Rightarrow> bool" where
  "unicode_isspace db c =
     (if c < 128 then (9 \<le> c \<and> c \<le> 13) \<or> (28 \<le> c \<and> c \<le> 32) else isspace_hi db c)"

definition strip :: "unicodedb \<Rightarrow> str \<Rightarrow> str" where
  "strip db s = rev (dropWhile (unicode_isspace db) (rev (dropWhile (unicode_isspace db) s)))"

text \<open>\<^verbatim>\<open>s.split(sep)\<close> with a one-character separator: never an empty list; consecutive
  separators give empty fields.\<close>

fun split :: "'a \<Rightarrow> 'a list \<Rightarrow> 'a list list" where
  "split sep [] = [[]]"
| "split sep (x # xs) =
     (if x = sep then [] # split sep xs
      else (case split sep xs of [] \<Rightarrow> [[x]] | f # fs \<Rightarrow> (x # f) # fs))"

text \<open>
  \<^verbatim>\<open>int(x)\<close> on a \<^verbatim>\<open>str\<close>.  CPython first rewrites the text to ASCII
  (\<^verbatim>\<open>_PyUnicode_TransformDecimalAndSpaceToASCII\<close>): an all-ASCII text is taken as it is;
  otherwise code points below 127 stay, white space becomes a space, a decimal digit of
  any script becomes the ASCII digit, and at the first other character the text is cut
  and ends in \<^verbatim>\<open>?\<close>.  Then \<^verbatim>\<open>PyLong_FromString\<close> with base 10 reads: white space of
  \<^verbatim>\<open>Py_ISSPACE\<close> (TAB, LF, VT, FF, CR, space), one optional sign, digits in which single
  underscores may separate two digits, white space, end of text.  Anything else is a
  \<^verbatim>\<open>ValueError\<close>.  (The interpreter's limit on the number of digits, 4300 by default,
  is above the 1024 bytes of a chunk.)
\<close>

fun to_ascii :: "unicodedb \<Rightarrow> str \<Rightarrow> str" where
  "to_ascii db [] = []"
| "to_ascii db (c # cs) =
     (if c < 127 then c # to_ascii db cs
      else if unicode_isspace db c then 32 # to_ascii db cs
      else (case todecimal_hi db c of
              None \<Rightarrow> [63]
            | Some d \<Rightarrow> (48 + d) # to_ascii db cs))"

definition transform_decimal_and_space :: "unicodedb \<Rightarrow> str \<Rightarrow> str" where
  "transform_decimal_and_space db s = (if list_all (\<lambda>c. c < 128) s then s else to_ascii db s)"

definition c_isspace :: "nat \<Rightarrow> bool" where
  "c_isspace c = ((9 \<le> c \<and> c \<le> 13) \<or> c = 32)"

definition is_digit :: "nat \<Rightarrow> bool" where
  "is_digit c = (48 \<le> c \<and> c \<le> 57)"

definition digit_or_underscore :: "nat \<Rightarrow> bool" where
  "digit_or_underscore c = (is_digit c \<or> c = 95)"

fun double_underscore :: "nat list \<Rightarrow> bool" where
  "double_underscore (a # b # cs) = ((a = 95 \<and> b = 95) \<or> double_underscore (b # cs))"
| "double_underscore _ = False"

definition digits_value :: "nat list \<Rightarrow> int" where
  "digits_value ds = foldl (\<lambda>acc c. 10 * acc + int (c - 48)) 0 ds"

definition long_from_string :: "str \<Rightarrow> exn + int" where
  "long_from_string s =
     (let s1 = dropWhile c_isspace s;
          neg = (s1 \<noteq> [] \<and> hd s1 = 45);
          s2 = (if s1 \<noteq> [] \<and> (hd s1 = 43 \<or> hd s1 = 45) then tl s1 else s1);
          body = takeWhile digit_or_underscore s2;
          rest = dropWhile digit_or_underscore s2
      in if body = [] \<or> hd body = 95 \<or> last body = 95 \<or> double_underscore body
            \<or> dropWhile c_isspace rest \<noteq> []
         then Inl ValueError
         else Inr ((if neg then - 1 else 1) * digits_value (filter is_digit body)))"

definition py_int :: "unicodedb \<Rightarrow> str \<Rightarrow> exn + int" where
  "py_int db s = long_from_string (transform_decimal_and_space db s)"

text \<open>A list comprehension \<^verbatim>\<open>[f(x) for x in xs]\<close> whose \<open>f\<close> may raise: the first
  exception ends it.\<close>

fun comprehension :: "('a \<Rightarrow> exn + 'b) \<Rightarrow> 'a list \<Rightarrow> exn + 'b list" where
  "comprehension f [] = Inr []"
| "comprehension f (x # xs) =
     (case f x of Inl e \<Rightarrow> Inl e | Inr y \<Rightarrow> cons_ok y (comprehension f xs))"

subsection \<open>The resize payload (lines 51 to 53)\<close>

definition RESIZE :: bytes where
  "RESIZE = ''###RESIZE###''"

text \<open>
  \<^verbatim>\<open>payload = data[len('###RESIZE###'):].decode().strip()\<close> and
  \<^verbatim>\<open>cols, rows = [int(x) for x in payload.split(',')]\<close>: the unpacking wants exactly two
  values and raises \<^verbatim>\<open>ValueError\<close> otherwise.
\<close>

definition parse_resize :: "unicodedb \<Rightarrow> bytes \<Rightarrow> exn + (int \<times> int)" where
  "parse_resize db data =
     (case decode (drop (length RESIZE) data) of
        Inl e \<Rightarrow> Inl e
      | Inr text \<Rightarrow>
          (case comprehension (py_int db) (split 44 (strip db text)) of
             Inl e \<Rightarrow> Inl e
           | Inr [cols, rows] \<Rightarrow> Inr (cols, rows)
           | Inr _ \<Rightarrow> Inl ValueError))"

text \<open>
  The device's size record, \<^verbatim>\<open>struct winsize\<close>: four 16-bit fields, rows first.
  \<^verbatim>\<open>struct.pack('hhhh', a, b, c, d)\<close> stores each argument as a native signed short and
  raises \<^verbatim>\<open>struct.error\<close> for an argument outside \<open>-32768..32767\<close>.  The byte order is
  the machine's, for the packing and for the device alike, so the packed buffer is
  modelled as the record it denotes.
\<close>

record winsize =
  ws_row :: "16 word"
  ws_col :: "16 word"
  ws_xpixel :: "16 word"
  ws_ypixel :: "16 word"

definition fits_short :: "int \<Rightarrow> bool" where
  "fits_short v = (- 32768 \<le> v \<and> v \<le> 32767)"

definition pack_hhhh :: "int \<Rightarrow> int \<Rightarrow> int \<Rightarrow> int \<Rightarrow> exn + winsize" where
  "pack_hhhh a b c d =
     (if fits_short a \<and> fits_short b \<and> fits_short c \<and> fits_short d
      then Inr \<lparr>ws_row = word_of_int a, ws_col = word_of_int b,
                ws_xpixel = word_of_int c, ws_ypixel = word_of_int d\<rparr>
      else Inl StructError)"

subsection \<open>Calls, traces and the environment\<close>

datatype signal = SIGINT | SIGWINCH

datatype source = Stdin | Master      \<comment> \<open>the two objects given to \<^verbatim>\<open>select\<close>\<close>

datatype oscall =
    Openpty                                     \<comment> \<open>\<^verbatim>\<open>pty.openpty()\<close>\<close>
  | Popen "string list" fd fd fd string "(string \<times> string) list"
      \<comment> \<open>\<^verbatim>\<open>subprocess.Popen(args, stdin, stdout, stderr, cwd, env, preexec_fn=os.setsid)\<close>\<close>
  | Close fd                                    \<comment> \<open>\<^verbatim>\<open>os.close(fd)\<close>\<close>
  | Poll                                        \<comment> \<open>\<^verbatim>\<open>process.poll()\<close>\<close>
  | Select                                      \<comment> \<open>\<^verbatim>\<open>select.select([sys.stdin, master], [], [], 0.1)\<close>\<close>
  | Read fd nat                                 \<comment> \<open>\<^verbatim>\<open>os.read(fd, n)\<close>\<close>
  | Ioctl_TIOCSWINSZ fd winsize                 \<comment> \<open>\<^verbatim>\<open>fcntl.ioctl(fd, termios.TIOCSWINSZ, buf)\<close>\<close>
  | Kill int signal                             \<comment> \<open>\<^verbatim>\<open>os.kill(pid, sig)\<close>\<close>
  | Write fd bytes                              \<comment> \<open>\<^verbatim>\<open>os.write(fd, data)\<close>\<close>
  | Stdout_write bytes                          \<comment> \<open>\<^verbatim>\<open>sys.stdout.buffer.write(data)\<close>\<close>
  | Stdout_flush                                \<comment> \<open>\<^verbatim>\<open>sys.stdout.flush()\<close>\<close>
  | Terminate                                   \<comment> \<open>\<^verbatim>\<open>process.terminate()\<close>\<close>
  | Wait                                        \<comment> \<open>\<^verbatim>\<open>process.wait()\<close>\<close>
  | Print string                                \<comment> \<open>\<^verbatim>\<open>print(text)\<close>\<close>

text \<open>An event is a call and the exception it raised, \<open>None\<close> when it returned.  An action
  yields the events it caused and either the exception that left it or its value.\<close>

type_synonym event = "oscall \<times> exn option"
type_synonym 'a act = "event list \<times> (exn + 'a)"

definition call :: "oscall \<Rightarrow> exn + 'a \<Rightarrow> 'a act" where
  "call c answer =
     (case answer of Inl e \<Rightarrow> ([(c, Some e)], Inl e) | Inr v \<Rightarrow> ([(c, None)], Inr v))"

definition ret :: "'a \<Rightarrow> 'a act" where
  "ret v = ([], Inr v)"

definition then_do :: "'a act \<Rightarrow> ('a \<Rightarrow> 'b act) \<Rightarrow> 'b act" where
  "then_do m f =
     (case m of
        (tr, Inl e) \<Rightarrow> (tr, Inl e)
      | (tr, Inr v) \<Rightarrow> (case f v of (tr', r) \<Rightarrow> (tr @ tr', r)))"

text \<open>\<^verbatim>\<open>os.read(fd, n)\<close> returns at most \<open>n\<close> of the bytes that are there.\<close>

definition os_read :: "nat \<Rightarrow> exn + bytes \<Rightarrow> exn + bytes" where
  "os_read n answer = (case answer of Inl e \<Rightarrow> Inl e | Inr d \<Rightarrow> Inr (take n d))"

text \<open>
  The answers of the world.  One pass of the \<^verbatim>\<open>while\<close> loop makes each call at most once
  (\<^verbatim>\<open>select\<close> reports a descriptor at most once), so one record per pass holds them.
  \<^verbatim>\<open>select\<close> returns the ready ones among \<^verbatim>\<open>[sys.stdin, master]\<close>, in this order: two
  flags.  \<^verbatim>\<open>process.poll()\<close> is \<open>None\<close> while the child runs.  An interrupt of the bridge is
  the answer \<^term>\<open>Inl KeyboardInterrupt\<close> of the call at which it arrives.
\<close>

record iter_env =
  poll_r :: "exn + int option"
  select_r :: "exn + (bool \<times> bool)"
  stdin_read_r :: "exn + bytes"
  ioctl_r :: "exn + unit"
  kill_winch_r :: "exn + unit"
  master_write_r :: "exn + nat"
  master_read_r :: "exn + bytes"
  stdout_write_r :: "exn + nat"
  stdout_flush_r :: "exn + unit"

record session_env =
  openpty_r :: "exn + (fd \<times> fd)"
  popen_r :: "exn + int"                 \<comment> \<open>the child's pid\<close>
  close_slave_r :: "exn + unit"
  iters :: "iter_env list"                \<comment> \<open>the passes of the loop the world answers\<close>
  kill_int_r :: "exn + unit"
  close_master_r :: "exn + unit"
  terminate_r :: "exn + unit"
  wait_r :: "exn + int"

definition stdin_fileno :: fd where
  "stdin_fileno = 0"

subsection \<open>The body of the loop (lines 42 to 70)\<close>

datatype ctl = Continue | Break

text \<open>Lines 51 to 54, the body of the inner \<^verbatim>\<open>try\<close>.\<close>

definition apply_resize :: "unicodedb \<Rightarrow> fd \<Rightarrow> int \<Rightarrow> iter_env \<Rightarrow> bytes \<Rightarrow> unit act" where
  "apply_resize db master pid it data =
     (case parse_resize db data of
        Inl e \<Rightarrow> ([], Inl e)
      | Inr (cols, rows) \<Rightarrow>
          (case pack_hhhh rows cols 0 0 of
             Inl e \<Rightarrow> ([], Inl e)
           | Inr ws \<Rightarrow>
               then_do (call (Ioctl_TIOCSWINSZ master ws) (ioctl_r it))
                 (\<lambda>_. call (Kill pid SIGWINCH) (kill_winch_r it))))"

text \<open>\<^verbatim>\<open>except Exception: pass\<close> and \<^verbatim>\<open>except OSError: break\<close>.\<close>

definition except_Exception_pass :: "unit act \<Rightarrow> unit act" where
  "except_Exception_pass m =
     (case m of
        (tr, Inl e) \<Rightarrow> if is_Exception e then (tr, Inr ()) else (tr, Inl e)
      | (tr, Inr v) \<Rightarrow> (tr, Inr v))"

definition except_OSError_break :: "ctl act \<Rightarrow> ctl act" where
  "except_OSError_break m =
     (case m of
        (tr, Inl e) \<Rightarrow> if is_OSError e then (tr, Inr Break) else (tr, Inl e)
      | (tr, Inr v) \<Rightarrow> (tr, Inr v))"

text \<open>Lines 45 to 60: the branch \<^verbatim>\<open>fd == sys.stdin\<close>.\<close>

definition on_stdin :: "unicodedb \<Rightarrow> fd \<Rightarrow> int \<Rightarrow> iter_env \<Rightarrow> ctl act" where
  "on_stdin db master pid it =
     except_OSError_break
       (then_do (call (Read stdin_fileno 1024) (os_read 1024 (stdin_read_r it)))
          (\<lambda>data.
             if data = [] then ret Continue
             else if startswith data RESIZE then
               then_do (except_Exception_pass (apply_resize db master pid it data))
                 (\<lambda>_. ret Continue)
             else
               then_do (call (Write master data) (master_write_r it))
                 (\<lambda>_. ret Continue)))"

text \<open>Lines 64 to 70: the branch \<^verbatim>\<open>fd == master\<close>.\<close>

definition on_master :: "fd \<Rightarrow> iter_env \<Rightarrow> ctl act" where
  "on_master master it =
     except_OSError_break
       (then_do (call (Read master 1024) (os_read 1024 (master_read_r it)))
          (\<lambda>data.
             if data \<noteq> [] then
               then_do (call (Stdout_write data) (stdout_write_r it))
                 (\<lambda>_. then_do (call Stdout_flush (stdout_flush_r it)) (\<lambda>_. ret Continue))
             else ret Continue))"

definition on_ready :: "unicodedb \<Rightarrow> fd \<Rightarrow> int \<Rightarrow> iter_env \<Rightarrow> source \<Rightarrow> ctl act" where
  "on_ready db master pid it src =
     (case src of Stdin \<Rightarrow> on_stdin db master pid it | Master \<Rightarrow> on_master master it)"

text \<open>\<^verbatim>\<open>for fd in ready\<close>: \<^verbatim>\<open>break\<close> leaves this loop, and only this one.\<close>

fun for_each :: "('a \<Rightarrow> ctl act) \<Rightarrow> 'a list \<Rightarrow> unit act" where
  "for_each body [] = ([], Inr ())"
| "for_each body (x # xs) =
     (case body x of
        (tr, Inl e) \<Rightarrow> (tr, Inl e)
      | (tr, Inr Break) \<Rightarrow> (tr, Inr ())
      | (tr, Inr Continue) \<Rightarrow> (case for_each body xs of (tr', r) \<Rightarrow> (tr @ tr', r)))"

definition ready_list :: "bool \<times> bool \<Rightarrow> source list" where
  "ready_list rdy = (if fst rdy then [Stdin] else []) @ (if snd rdy then [Master] else [])"

subsection \<open>The \<^verbatim>\<open>while\<close> loop (lines 38 to 70)\<close>

text \<open>
  The loop runs as long as the child does, so it need not end.  It is run against the
  finite list of passes that the world answers: \<^term>\<open>Unfinished\<close> says that the list
  is used up and the loop is still running.
\<close>

datatype outcome = Returned | Raised exn | Unfinished

fun multiplex :: "unicodedb \<Rightarrow> fd \<Rightarrow> int \<Rightarrow> iter_env list \<Rightarrow> event list \<times> outcome" where
  "multiplex db master pid [] = ([], Unfinished)"
| "multiplex db master pid (it # its) =
     (case call Poll (poll_r it) of
        (tr, Inl e) \<Rightarrow> (tr, Raised e)
      | (tr, Inr (Some status)) \<Rightarrow> (tr, Returned)
      | (tr, Inr None) \<Rightarrow>
          (case then_do (call Select (select_r it))
                  (\<lambda>rdy. for_each (on_ready db master pid it) (ready_list rdy)) of
             (tr', Inl e) \<Rightarrow> (tr @ tr', Raised e)
           | (tr', Inr _) \<Rightarrow>
               (case multiplex db master pid its of (tr'', r) \<Rightarrow> (tr @ tr' @ tr'', r))))"

subsection \<open>\<^verbatim>\<open>create_pty_session\<close> (lines 12 to 79)\<close>

text \<open>The \<^verbatim>\<open>finally\<close> block, lines 77 to 79: three statements in a row.\<close>

definition teardown :: "fd \<Rightarrow> session_env \<Rightarrow> int act" where
  "teardown master env =
     then_do (call (Close master) (close_master_r env))
       (\<lambda>_. then_do (call Terminate (terminate_r env))
          (\<lambda>_. call Wait (wait_r env)))"

text \<open>Leaving \<^verbatim>\<open>try ... finally\<close>: an exception of the \<^verbatim>\<open>finally\<close> block replaces the
  pending one; otherwise the pending one goes on, or the function returns.\<close>

definition finally_block :: "fd \<Rightarrow> session_env \<Rightarrow> exn option \<Rightarrow> event list \<times> outcome" where
  "finally_block master env pending =
     (case teardown master env of
        (tr, Inl e) \<Rightarrow> (tr, Raised e)
      | (tr, Inr _) \<Rightarrow> (tr, (case pending of None \<Rightarrow> Returned | Some e \<Rightarrow> Raised e)))"

text \<open>Lines 72 to 74: \<^verbatim>\<open>except KeyboardInterrupt\<close> sends \<^verbatim>\<open>SIGINT\<close> to the child; every
  other exception stays pending.  The result is the handler's events and what is pending
  when the \<^verbatim>\<open>finally\<close> block starts.\<close>

definition except_KeyboardInterrupt ::
  "int \<Rightarrow> session_env \<Rightarrow> exn \<Rightarrow> event list \<times> exn option" where
  "except_KeyboardInterrupt pid env e =
     (if e = KeyboardInterrupt then
        (case call (Kill pid SIGINT) (kill_int_r env) of
           (tr, Inl e') \<Rightarrow> (tr, Some e')
         | (tr, Inr _) \<Rightarrow> (tr, None))
      else ([], Some e))"

text \<open>Lines 19 to 22: the child's environment, a copy of the bridge's with three entries
  set.\<close>

definition child_env :: "(string \<times> string) list \<Rightarrow> string \<Rightarrow> (string \<times> string) list" where
  "child_env environ cwd =
     AList.update ''PWD'' cwd
       (AList.update ''COLORTERM'' ''truecolor''
          (AList.update ''TERM'' ''xterm-256color'' environ))"

definition create_pty_session ::
  "unicodedb \<Rightarrow> (string \<times> string) list \<Rightarrow> session_env \<Rightarrow> string list \<Rightarrow> string
     \<Rightarrow> event list \<times> outcome" where
  "create_pty_session db environ env shell_command cwd =
     (case call Openpty (openpty_r env) of
        (tr0, Inl e) \<Rightarrow> (tr0, Raised e)
      | (tr0, Inr (master, slave)) \<Rightarrow>
          (case then_do
                  (call (Popen shell_command slave slave slave cwd (child_env environ cwd))
                     (popen_r env))
                  (\<lambda>pid. then_do (call (Close slave) (close_slave_r env)) (\<lambda>_. ret pid)) of
             (tr1, Inl e) \<Rightarrow> (tr0 @ tr1, Raised e)
           | (tr1, Inr pid) \<Rightarrow>
               (case multiplex db master pid (iters env) of
                  (tr2, Unfinished) \<Rightarrow> (tr0 @ tr1 @ tr2, Unfinished)
                | (tr2, Returned) \<Rightarrow>
                    (case finally_block master env None of
                       (tr4, r) \<Rightarrow> (tr0 @ tr1 @ tr2 @ tr4, r))
                | (tr2, Raised e) \<Rightarrow>
                    (case except_KeyboardInterrupt pid env e of
                       (tr3, pending) \<Rightarrow>
                         (case finally_block master env pending of
                            (tr4, r) \<Rightarrow> (tr0 @ tr1 @ tr2 @ tr3 @ tr4, r))))))"

subsection \<open>The program (lines 81 to 95)\<close>

text \<open>\<^verbatim>\<open>sep.join(words)\<close>.\<close>

fun join :: "'a list \<Rightarrow> 'a list list \<Rightarrow> 'a list" where
  "join sep [] = []"
| "join sep [w] = w"
| "join sep (w # ws) = w @ sep @ join sep ws"

text \<open>Lines 86 to 93, reached with at least three entries in \<^verbatim>\<open>sys.argv\<close>.  A Python
  string is true when it is not empty.\<close>

definition shell_command_of :: "string list \<Rightarrow> string list" where
  "shell_command_of argv =
     (let shell = argv ! 1;
          command = (if length argv > 3 then join '' '' (drop 3 argv) else [])
      in if command \<noteq> [] then [shell, ''-l'', ''-c'', command] else [shell, ''-l''])"

definition usage :: string where
  "usage = ''Usage: pty_bridge.py <shell> <cwd> [command...]''"

definition main ::
  "unicodedb \<Rightarrow> (string \<times> string) list \<Rightarrow> session_env \<Rightarrow> string list
     \<Rightarrow> event list \<times> outcome" where
  "main db environ env argv =
     (if length argv < 3 then ([(Print usage, None)], Raised (SystemExit 1))
      else create_pty_session db environ env (shell_command_of argv) (argv ! 2))"

subsection \<open>Reading a trace\<close>

text \<open>The buffers of the \<^verbatim>\<open>os.write\<close> calls on a descriptor, in order.\<close>

fun written_to :: "fd \<Rightarrow> event list \<Rightarrow> bytes list" where
  "written_to fd [] = []"
| "written_to fd ((Write fd' d, r) # evs) =
     (if fd' = fd then d # written_to fd evs else written_to fd evs)"
| "written_to fd (ev # evs) = written_to fd evs"

text \<open>The descriptors closed by the bridge.\<close>

fun closed :: "event list \<Rightarrow> fd list" where
  "closed [] = []"
| "closed ((Close fd, None) # evs) = fd # closed evs"
| "closed (ev # evs) = closed evs"

text \<open>The size record of a device after a trace: the buffer of the last
  \<^verbatim>\<open>TIOCSWINSZ\<close> on it that returned.\<close>

fun winsize_after :: "fd \<Rightarrow> winsize option \<Rightarrow> event list \<Rightarrow> winsize option" where
  "winsize_after fd ws [] = ws"
| "winsize_after fd ws ((Ioctl_TIOCSWINSZ fd' ws', None) # evs) =
     winsize_after fd (if fd' = fd then Some ws' else ws) evs"
| "winsize_after fd ws (ev # evs) = winsize_after fd ws evs"

text \<open>
  Whom \<^verbatim>\<open>kill(pid, sig)\<close> signals (POSIX): a positive \<open>pid\<close> names one process, \<open>0\<close> the
  caller's process group, \<open>-1\<close> every process the caller may signal, and any other
  negative \<open>pid\<close> the process group \<open>-pid\<close>.
\<close>

datatype target = Process int | Group int | Own_group | Everyone

definition kill_target :: "int \<Rightarrow> target" where
  "kill_target pid =
     (if pid > 0 then Process pid
      else if pid = 0 then Own_group
      else if pid = - 1 then Everyone
      else Group (- pid))"

text \<open>The signals a trace delivered, with their targets.\<close>

fun signalled :: "event list \<Rightarrow> (target \<times> signal) list" where
  "signalled [] = []"
| "signalled ((Kill pid sig, None) # evs) = (kill_target pid, sig) # signalled evs"
| "signalled (ev # evs) = signalled evs"

text \<open>Whether some call of a trace was answered by the interrupt of the bridge, and
  whether a trace stops there: the interrupted call is then its last event, and \<open>raised\<close>
  says that the interrupt left the action.\<close>

definition interrupted :: "event list \<Rightarrow> bool" where
  "interrupted tr = list_ex (\<lambda>ev. snd ev = Some KeyboardInterrupt) tr"

definition stops_at_interrupt :: "event list \<Rightarrow> bool \<Rightarrow> bool" where
  "stops_at_interrupt tr raised =
     (if interrupted tr then raised \<and> tr \<noteq> [] \<and> snd (last tr) = Some KeyboardInterrupt
      else True)"

subsection \<open>Resize messages as a client writes them\<close>

text \<open>\<^verbatim>\<open>str(i)\<close> for an integer: decimal digits, most significant first, no leading
  zero, a minus sign for a negative number.\<close>

fun digits :: "nat \<Rightarrow> str" where
  "digits n = (if n < 10 then [48 + n] else digits (n div 10) @ [48 + n mod 10])"

definition repr_int :: "int \<Rightarrow> str" where
  "repr_int i = (if i < 0 then 45 # digits (nat (- i)) else digits (nat i))"

definition ascii_encode :: "str \<Rightarrow> bytes" where
  "ascii_encode s = map char_of s"

text \<open>The message \<^verbatim>\<open>###RESIZE###<columns>,<rows>\<close>.\<close>

definition resize_message :: "int \<Rightarrow> int \<Rightarrow> bytes" where
  "resize_message cols rows = RESIZE @ ascii_encode (repr_int cols @ [44] @ repr_int rows)"

subsection \<open>Sample environments\<close>

text \<open>A pass in which the child runs, nothing is ready and every call succeeds; a pass
  in which standard input alone is ready and delivers a chunk; a pass in which the master
  alone is ready and delivers a chunk; a world in which every call of the session
  succeeds, with descriptors 3 and 4 for the terminal pair and a child 4242.\<close>

definition idle :: iter_env where
  "idle = \<lparr>poll_r = Inr None, select_r = Inr (False, False), stdin_read_r = Inr [],
            ioctl_r = Inr (), kill_winch_r = Inr (), master_write_r = Inr 0,
            master_read_r = Inr [], stdout_write_r = Inr 0, stdout_flush_r = Inr ()\<rparr>"

definition stdin_chunk :: "bytes \<Rightarrow> iter_env" where
  "stdin_chunk d =
     idle\<lparr>select_r := Inr (True, False), stdin_read_r := Inr d,
          master_write_r := Inr (length d)\<rparr>"

definition master_chunk :: "bytes \<Rightarrow> iter_env" where
  "master_chunk d =
     idle\<lparr>select_r := Inr (False, True), master_read_r := Inr d,
          stdout_write_r := Inr (length d)\<rparr>"

definition calm :: "iter_env list \<Rightarrow> session_env" where
  "calm its = \<lparr>openpty_r = Inr (3, 4), popen_r = Inr 4242, close_slave_r = Inr (),
               iters = its, kill_int_r = Inr (), close_master_r = Inr (),
               terminate_r = Inr (), wait_r = Inr 0\<rparr>"

section \<open>Properties\<close>

subsection \<open>Which exceptions the parser raises\<close>

lemmas act_defs =
  call_def ret_def then_do_def os_read_def except_Exception_pass_def except_OSError_break_def


lemma cons_ok_Inr: "cons_ok x (Inr xs) = Inr (x # xs)"
  by (simp add: cons_ok_def)






lemma is_OSError_Exception: "is_OSError e \<Longrightarrow> is_Exception e"
  by (cases e) simp_all

subsection \<open>A chunk from standard input\<close>

lemma written_to_append: "written_to fd (xs @ ys) = written_to fd xs @ written_to fd ys"
  by (induction fd xs rule: written_to.induct) simp_all



lemma startswith_nonempty: "startswith s RESIZE \<Longrightarrow> s \<noteq> []"
  by (auto simp: startswith_def RESIZE_def)

text \<open>With the sentinel in front, the branch is the inner \<^verbatim>\<open>try\<close> and a \<^verbatim>\<open>continue\<close>.\<close>

lemma on_stdin_resize:
  assumes "stdin_read_r it = Inr d" and "startswith (take 1024 d) RESIZE"
    and "apply_resize db master pid it (take 1024 d) = (tr, r)"
  shows "on_stdin db master pid it =
     ((Read stdin_fileno 1024, None) # tr,
      (case r of
         Inl e \<Rightarrow> if is_Exception e then Inr Continue else Inl e
       | Inr _ \<Rightarrow> Inr Continue))"
proof -
  have ne: "take 1024 d \<noteq> []"
    using assms(2) by (rule startswith_nonempty)
  show ?thesis
  proof (cases r)
    case (Inl e)
    with assms ne show ?thesis
      by (auto simp: on_stdin_def act_defs dest: is_OSError_Exception)
  next
    case (Inr u)
    with assms ne show ?thesis
      by (simp add: on_stdin_def act_defs)
  qed
qed

text \<open>Without it, a chunk that is not empty goes to the master in one \<^verbatim>\<open>os.write\<close>.\<close>

lemma on_stdin_forward:
  assumes "stdin_read_r it = Inr d" and "\<not> startswith (take 1024 d) RESIZE"
    and "take 1024 d \<noteq> []"
  shows "on_stdin db master pid it =
     (case master_write_r it of
        Inl e \<Rightarrow> ([(Read stdin_fileno 1024, None), (Write master (take 1024 d), Some e)],
                  if is_OSError e then Inr Break else Inl e)
      | Inr n \<Rightarrow> ([(Read stdin_fileno 1024, None), (Write master (take 1024 d), None)],
                  Inr Continue))"
  using assms by (simp add: on_stdin_def act_defs split: sum.splits)

lemma on_stdin_empty:
  assumes "stdin_read_r it = Inr d" and "take 1024 d = []"
  shows "on_stdin db master pid it = ([(Read stdin_fileno 1024, None)], Inr Continue)"
  using assms by (simp add: on_stdin_def act_defs)



text \<open>
  Claim C9.  The sentinel is looked for at the start of each chunk only.  A chunk (at most
  1024 bytes) that does not begin with \<^verbatim>\<open>###RESIZE###\<close> reaches the master whole: the
  bytes handed to \<^verbatim>\<open>os.write\<close> on the master are the chunk, and unless the chunk is empty
  the branch makes exactly one such call after the read.
\<close>

theorem other_chunk_forwarded_verbatim:
  assumes "stdin_read_r it = Inr d" and "\<not> startswith (take 1024 d) RESIZE"
  shows "concat (written_to master (fst (on_stdin db master pid it))) = take 1024 d
    \<and> (take 1024 d \<noteq> [] \<longrightarrow>
          map fst (fst (on_stdin db master pid it))
            = [Read stdin_fileno 1024, Write master (take 1024 d)])"
proof (cases "take 1024 d = []")
  case True
  with on_stdin_empty [OF assms(1) True, of db master pid] show ?thesis by simp
next
  case False
  with on_stdin_forward [OF assms False, of db master pid] show ?thesis
    by (cases "master_write_r it") simp_all
qed

theorem other_chunk_forwarded_verbatim_witness:
  "stdin_read_r (stdin_chunk ''ls ###RESIZE###80,24'') = Inr ''ls ###RESIZE###80,24''
   \<and> \<not> startswith (take 1024 ''ls ###RESIZE###80,24'') RESIZE
   \<and> concat (written_to 3 (fst (on_stdin ascii_db 3 4242 (stdin_chunk ''ls ###RESIZE###80,24''))))
       = ''ls ###RESIZE###80,24''
   \<and> map fst (fst (on_stdin ascii_db 3 4242 (stdin_chunk ''ls ###RESIZE###80,24'')))
       = [Read stdin_fileno 1024, Write 3 ''ls ###RESIZE###80,24'']
   \<and> stdin_read_r (stdin_chunk ''###RESI'') = Inr ''###RESI''
   \<and> \<not> startswith (take 1024 ''###RESI'') RESIZE
   \<and> map fst (fst (on_stdin ascii_db 3 4242 (stdin_chunk ''###RESI'')))
       = [Read stdin_fileno 1024, Write 3 ''###RESI'']
   \<and> stdin_read_r (stdin_chunk ''ZE###80,24'') = Inr ''ZE###80,24''
   \<and> \<not> startswith (take 1024 ''ZE###80,24'') RESIZE
   \<and> map fst (fst (on_stdin ascii_db 3 4242 (stdin_chunk ''ZE###80,24'')))
       = [Read stdin_fileno 1024, Write 3 ''ZE###80,24'']"
proof -
  have r1: "stdin_read_r (stdin_chunk ''ls ###RESIZE###80,24'') = Inr ''ls ###RESIZE###80,24''"
    and r2: "stdin_read_r (stdin_chunk ''###RESI'') = Inr ''###RESI''"
    and r3: "stdin_read_r (stdin_chunk ''ZE###80,24'') = Inr ''ZE###80,24''"
    by (simp_all add: stdin_chunk_def idle_def)
  have s1: "\<not> startswith (take 1024 ''ls ###RESIZE###80,24'') RESIZE"
    and s2: "\<not> startswith (take 1024 ''###RESI'') RESIZE"
    and s3: "\<not> startswith (take 1024 ''ZE###80,24'') RESIZE"
    by (simp_all add: startswith_def RESIZE_def)
  from other_chunk_forwarded_verbatim [OF r2 s2, of 3 ascii_db 4242]
    other_chunk_forwarded_verbatim [OF r3 s3, of 3 ascii_db 4242]
    other_chunk_forwarded_verbatim [OF r1 s1, of 3 ascii_db 4242]
    r1 r2 r3 s1 s2 s3
  show ?thesis by simp
qed

subsection \<open>A chunk from the master\<close>

lemma on_master_empty:
  assumes "master_read_r it = Inr d" and "take 1024 d = []"
  shows "on_master master it = ([(Read master 1024, None)], Inr Continue)"
  using assms by (simp add: on_master_def act_defs)

lemma on_master_data:
  assumes "master_read_r it = Inr d" and "take 1024 d \<noteq> []"
    and "stdout_write_r it = Inr n" and "stdout_flush_r it = Inr ()"
  shows "on_master master it =
     ([(Read master 1024, None), (Stdout_write (take 1024 d), None), (Stdout_flush, None)],
      Inr Continue)"
  using assms by (simp add: on_master_def act_defs)

lemma on_master_error:
  assumes "master_read_r it = Inl OSError"
  shows "on_master master it = ([(Read master 1024, Some OSError)], Inr Break)"
  using assms by (simp add: on_master_def act_defs)

text \<open>A pass in which only the master is ready and its branch raises nothing is followed
  by the next pass, whether the branch ended in \<^verbatim>\<open>break\<close> or not.\<close>

lemma multiplex_master_pass:
  assumes "poll_r it = Inr None" and "select_r it = Inr (False, True)"
    and "on_master master it = (tr, Inr c)"
  shows "multiplex db master pid (it # its) =
     ((Poll, None) # (Select, None) # tr @ fst (multiplex db master pid its),
      snd (multiplex db master pid its))"
  using assms
  by (cases c)
     (simp_all add: call_def then_do_def ready_list_def on_ready_def split: prod.splits)

text \<open>
  Claim C6, as the code has it.  On the master branch an empty read is ignored: the branch
  makes no further call and raises nothing, and the \<^verbatim>\<open>while\<close> loop goes on with its next
  pass.  A read that is not empty is written to standard output as it is and flushed at
  once.
\<close>

theorem master_read_handling:
  "(master_read_r it = Inr d \<and> take 1024 d = [] \<longrightarrow>
      on_master master it = ([(Read master 1024, None)], Inr Continue))
   \<and> (master_read_r it = Inr d \<and> take 1024 d = [] \<and> poll_r it = Inr None
        \<and> select_r it = Inr (False, True) \<longrightarrow>
      multiplex db master pid (it # its) =
        ((Poll, None) # (Select, None) # (Read master 1024, None)
           # fst (multiplex db master pid its),
         snd (multiplex db master pid its)))
   \<and> (master_read_r it = Inr d \<and> take 1024 d \<noteq> [] \<and> stdout_write_r it = Inr n
        \<and> stdout_flush_r it = Inr () \<longrightarrow>
      on_master master it =
        ([(Read master 1024, None), (Stdout_write (take 1024 d), None),
          (Stdout_flush, None)], Inr Continue))"
proof (intro conjI impI)
  assume "master_read_r it = Inr d \<and> take 1024 d = []"
  then show "on_master master it = ([(Read master 1024, None)], Inr Continue)"
    by (simp add: on_master_empty)
next
  assume a: "master_read_r it = Inr d \<and> take 1024 d = [] \<and> poll_r it = Inr None
        \<and> select_r it = Inr (False, True)"
  then have "on_master master it = ([(Read master 1024, None)], Inr Continue)"
    by (simp add: on_master_empty)
  with a multiplex_master_pass [of it master _ Continue db pid its]
  show "multiplex db master pid (it # its) =
        ((Poll, None) # (Select, None) # (Read master 1024, None)
           # fst (multiplex db master pid its),
         snd (multiplex db master pid its))"
    by simp
next
  assume "master_read_r it = Inr d \<and> take 1024 d \<noteq> [] \<and> stdout_write_r it = Inr n
        \<and> stdout_flush_r it = Inr ()"
  then show "on_master master it =
        ([(Read master 1024, None), (Stdout_write (take 1024 d), None),
          (Stdout_flush, None)], Inr Continue)"
    by (simp add: on_master_data)
qed

theorem master_read_handling_witness:
  "on_master 3 (master_chunk []) = ([(Read 3 1024, None)], Inr Continue)
   \<and> multiplex ascii_db 3 4242 [master_chunk [], idle] =
        ([(Poll, None), (Select, None), (Read 3 1024, None), (Poll, None), (Select, None)],
         Unfinished)
   \<and> on_master 3 (master_chunk ''hi'') =
        ([(Read 3 1024, None), (Stdout_write ''hi'', None), (Stdout_flush, None)],
         Inr Continue)"
proof -
  have i: "multiplex ascii_db 3 4242 [idle] = ([(Poll, None), (Select, None)], Unfinished)"
    by (simp add: idle_def call_def then_do_def ready_list_def)
  from master_read_handling [of "master_chunk []" "[]" 3 ascii_db 4242 "[idle]" 0] i
    master_read_handling [of "master_chunk ''hi''" "''hi''" 3 ascii_db 4242 "[]" 2]
  show ?thesis
    by (simp add: master_chunk_def idle_def)
qed

text \<open>Against C6 as it is written: after an empty read from the master the loop polls
  the child and selects again, and is still running when the answers end.\<close>

theorem empty_master_read_counterexample:
  "multiplex ascii_db 3 4242 [master_chunk [], idle] =
     ([(Poll, None), (Select, None), (Read 3 1024, None), (Poll, None), (Select, None)],
      Unfinished)"
  by (simp add: master_chunk_def idle_def call_def then_do_def ready_list_def on_ready_def
        on_master_def os_read_def ret_def except_OSError_break_def)

subsection \<open>The command line\<close>

lemma join_empty: "sep \<noteq> [] \<Longrightarrow> join sep ws = [] \<longleftrightarrow> ws = [] \<or> ws = [[]]"
  by (induction sep ws rule: join.induct) auto

lemma create_pty_session_spawn:
  assumes "openpty_r env = Inr (master, slave)"
  shows "take 2 (map fst (fst (create_pty_session db environ env cmd cwd)))
     = [Openpty, Popen cmd slave slave slave cwd (child_env environ cwd)]"
  using assms
  by (simp add: create_pty_session_def call_def then_do_def ret_def
        split: sum.splits prod.splits outcome.splits)

text \<open>
  Claim C8, as the code has it.  Started with a shell, a directory and command words, the
  program spawns \<^verbatim>\<open>[shell, "-l", "-c", command]\<close>, the command being the words joined by
  single spaces, whenever that command is not the empty string; it spawns
  \<^verbatim>\<open>[shell, "-l"]\<close> when there are no words and also when the only word is the empty
  string.
\<close>

theorem shell_command_shape:
  "shell_command_of (prog # shell # cwd # ws) =
     (if ws = [] \<or> ws = [''''] then [shell, ''-l'']
      else [shell, ''-l'', ''-c'', join '' '' ws])
   \<and> (openpty_r env = Inr (master, slave) \<longrightarrow>
        take 2 (map fst (fst (main db environ env (prog # shell # cwd # ws))))
          = [Openpty,
             Popen (shell_command_of (prog # shell # cwd # ws)) slave slave slave cwd
               (child_env environ cwd)])"
proof (intro conjI impI)
  have "join '' '' ws = [] \<longleftrightarrow> ws = [] \<or> ws = ['''']"
    by (rule join_empty) simp
  then show "shell_command_of (prog # shell # cwd # ws) =
     (if ws = [] \<or> ws = [''''] then [shell, ''-l'']
      else [shell, ''-l'', ''-c'', join '' '' ws])"
    by (auto simp: shell_command_of_def Let_def)
next
  assume "openpty_r env = Inr (master, slave)"
  then show "take 2 (map fst (fst (main db environ env (prog # shell # cwd # ws))))
          = [Openpty,
             Popen (shell_command_of (prog # shell # cwd # ws)) slave slave slave cwd
               (child_env environ cwd)]"
    by (simp add: main_def create_pty_session_spawn)
qed

theorem shell_command_shape_witness:
  "shell_command_of [''pty_bridge.py'', ''/bin/sh'', ''/tmp'', ''echo'', ''hi'']
     = [''/bin/sh'', ''-l'', ''-c'', ''echo hi'']
   \<and> shell_command_of [''pty_bridge.py'', ''/bin/sh'', ''/tmp''] = [''/bin/sh'', ''-l'']
   \<and> openpty_r (calm []) = Inr (3, 4)
   \<and> take 2 (map fst (fst (main ascii_db [] (calm [])
         [''pty_bridge.py'', ''/bin/sh'', ''/tmp'', ''echo'', ''hi''])))
       = [Openpty,
          Popen [''/bin/sh'', ''-l'', ''-c'', ''echo hi''] 4 4 4 ''/tmp''
            [(''TERM'', ''xterm-256color''), (''COLORTERM'', ''truecolor''),
             (''PWD'', ''/tmp'')]]"
  using shell_command_shape [of "''pty_bridge.py''" "''/bin/sh''" "''/tmp''"
      "[''echo'', ''hi'']" "calm []" 3 4 ascii_db "[]"]
    shell_command_shape [of "''pty_bridge.py''" "''/bin/sh''" "''/tmp''" "[]" "calm []" 3 4
      ascii_db "[]"]
  by (simp add: calm_def child_env_def)

text \<open>Against C8 as it is written: one command word is supplied, the empty string, and
  the argument vector has no \<^verbatim>\<open>-c\<close>.\<close>

theorem empty_command_word_counterexample:
  "drop 3 [''pty_bridge.py'', ''/bin/sh'', ''/tmp'', ''''] = ['''']
   \<and> shell_command_of [''pty_bridge.py'', ''/bin/sh'', ''/tmp'', ''''] = [''/bin/sh'', ''-l'']
   \<and> shell_command_of [''pty_bridge.py'', ''/bin/sh'', ''/tmp'', '''']
        \<noteq> [''/bin/sh'', ''-l'', ''-c'', join '' '' ['''']]"
  by (simp add: shell_command_of_def)

subsection \<open>Reading back a written integer\<close>

declare digits.simps [simp del]

lemma digits_nonempty: "digits n \<noteq> []"
  by (subst digits.simps) simp

lemma digits_all_digit: "list_all is_digit (digits n)"
proof (induction n rule: digits.induct)
  case (1 n)
  show ?case
  proof (cases "n < 10")
    case True
    then show ?thesis by (subst digits.simps) (simp add: is_digit_def)
  next
    case False
    have "n mod 10 < 10" by simp
    then have "is_digit (48 + n mod 10)" unfolding is_digit_def by linarith
    with False "1.IH" show ?thesis by (subst digits.simps) simp
  qed
qed

lemma digits_value_snoc: "digits_value (ds @ [c]) = 10 * digits_value ds + int (c - 48)"
  by (simp add: digits_value_def)

lemma digits_value_digits: "digits_value (digits n) = int n"
proof (induction n rule: digits.induct)
  case (1 n)
  show ?case
  proof (cases "n < 10")
    case True
    then show ?thesis by (subst digits.simps) (simp add: digits_value_def)
  next
    case False
    have "10 * int (n div 10) + int (n mod 10) = int n"
      by presburger
    with False "1.IH" show ?thesis
      by (subst digits.simps) (simp add: digits_value_snoc)
  qed
qed

lemma is_digit_facts:
  assumes "is_digit c"
  shows "c < 128" and "\<not> c_isspace c" and "\<not> unicode_isspace db c" and "c \<noteq> 43"
    and "c \<noteq> 44" and "c \<noteq> 45" and "c \<noteq> 95" and "digit_or_underscore c"
  using assms
  by (simp_all add: is_digit_def c_isspace_def unicode_isspace_def digit_or_underscore_def)

lemma no_double_underscore: "list_all is_digit ds \<Longrightarrow> \<not> double_underscore ds"
  by (induction ds rule: double_underscore.induct) (auto dest: is_digit_facts(7))

lemma long_from_string_unsigned:
  assumes "list_all is_digit ds" and "ds \<noteq> []"
  shows "long_from_string ds = Inr (digits_value ds)"
proof -
  obtain c cs where ds: "ds = c # cs" using assms(2) by (cases ds) auto
  with assms(1) have c: "is_digit c" by simp
  have tw: "takeWhile digit_or_underscore ds = ds"
    using assms(1) by (simp add: takeWhile_eq_all_conv list_all_iff is_digit_facts(8))
  have dw: "dropWhile digit_or_underscore ds = []"
    using assms(1) by (simp add: list_all_iff is_digit_facts(8))
  have sp: "dropWhile c_isspace ds = ds"
    using c by (simp add: ds is_digit_facts(2))
  have l: "is_digit (last ds)"
    using assms by (simp add: list_all_iff)
  have f: "filter is_digit ds = ds"
    using assms(1) by (simp add: list_all_iff)
  have h: "hd ds \<noteq> 43" "hd ds \<noteq> 45" "hd ds \<noteq> 95"
    using c by (simp_all add: ds is_digit_facts)
  show ?thesis
    unfolding long_from_string_def Let_def sp
    using h assms(2) is_digit_facts(7) [OF l] no_double_underscore [OF assms(1)]
    by (simp add: tw dw f)
qed

lemma long_from_string_minus:
  assumes "list_all is_digit ds" and "ds \<noteq> []"
  shows "long_from_string (45 # ds) = Inr (- digits_value ds)"
proof -
  obtain c cs where ds: "ds = c # cs" using assms(2) by (cases ds) auto
  with assms(1) have c: "is_digit c" by simp
  have tw: "takeWhile digit_or_underscore ds = ds"
    using assms(1) by (simp add: takeWhile_eq_all_conv list_all_iff is_digit_facts(8))
  have dw: "dropWhile digit_or_underscore ds = []"
    using assms(1) by (simp add: list_all_iff is_digit_facts(8))
  have sp: "dropWhile c_isspace (45 # ds) = 45 # ds"
    by (simp add: c_isspace_def)
  have l: "is_digit (last ds)"
    using assms by (simp add: list_all_iff)
  have f: "filter is_digit ds = ds"
    using assms(1) by (simp add: list_all_iff)
  have h: "hd ds \<noteq> 95"
    using c by (simp add: ds is_digit_facts)
  show ?thesis
    unfolding long_from_string_def Let_def sp
    using h assms(2) is_digit_facts(7) [OF l] no_double_underscore [OF assms(1)]
    by (simp add: tw dw f)
qed

lemma repr_int_ascii: "list_all (\<lambda>c. c < 128) (repr_int i)"
  using digits_all_digit [of "nat i"] digits_all_digit [of "nat (- i)"]
  by (auto simp: repr_int_def list_all_iff dest: is_digit_facts(1))

lemma py_int_repr_int: "py_int db (repr_int i) = Inr i"
proof (cases "i < 0")
  case True
  have "long_from_string (45 # digits (nat (- i))) = Inr (- digits_value (digits (nat (- i))))"
    by (rule long_from_string_minus [OF digits_all_digit digits_nonempty])
  with True repr_int_ascii [of i] show ?thesis
    by (simp add: py_int_def transform_decimal_and_space_def repr_int_def digits_value_digits)
next
  case False
  have "long_from_string (digits (nat i)) = Inr (digits_value (digits (nat i)))"
    by (rule long_from_string_unsigned [OF digits_all_digit digits_nonempty])
  with False repr_int_ascii [of i] show ?thesis
    by (simp add: py_int_def transform_decimal_and_space_def repr_int_def digits_value_digits)
qed

lemma repr_int_nonempty: "repr_int i \<noteq> []"
  by (simp add: repr_int_def digits_nonempty)

lemma repr_int_no_comma: "44 \<notin> set (repr_int i)"
  using digits_all_digit [of "nat i"] digits_all_digit [of "nat (- i)"]
  by (auto simp: repr_int_def list_all_iff dest: is_digit_facts(5))

lemma repr_int_hd: "\<not> unicode_isspace db (hd (repr_int i))"
proof -
  have "is_digit (hd (digits n))" for n
    using digits_all_digit [of n] digits_nonempty [of n] by (cases "digits n") simp_all
  then have "\<not> unicode_isspace db (hd (digits n))" for n
    by (rule is_digit_facts(3))
  moreover have "\<not> unicode_isspace db 45"
    by (simp add: unicode_isspace_def)
  ultimately show ?thesis
    by (simp add: repr_int_def)
qed

lemma repr_int_last: "\<not> unicode_isspace db (last (repr_int i))"
proof -
  have "is_digit (last (digits n))" for n
    using digits_all_digit [of n] digits_nonempty [of n] by (simp add: list_all_iff)
  then have "\<not> unicode_isspace db (last (digits n))" for n
    by (rule is_digit_facts(3))
  then show ?thesis
    by (simp add: repr_int_def digits_nonempty)
qed

subsection \<open>Decoding, stripping and splitting a written message\<close>

lemma decode_ascii: "list_all (\<lambda>c. c < 128) s \<Longrightarrow> decode (ascii_encode s) = Inr s"
  by (induction s) (simp_all add: ascii_encode_def cons_ok_def)

lemma dropWhile_hd: "s \<noteq> [] \<Longrightarrow> \<not> P (hd s) \<Longrightarrow> dropWhile P s = s"
  by (cases s) simp_all

lemma strip_trailing:
  assumes "s \<noteq> []" and "\<not> unicode_isspace db (hd s)" and "\<not> unicode_isspace db (last s)"
    and "list_all (unicode_isspace db) ws"
  shows "strip db (s @ ws) = s"
proof -
  have 1: "dropWhile (unicode_isspace db) (s @ ws) = s @ ws"
    using assms(1,2) by (intro dropWhile_hd) simp_all
  have "\<And>x. x \<in> set (rev ws) \<Longrightarrow> unicode_isspace db x"
    using assms(4) by (simp add: list_all_iff)
  then have 2: "dropWhile (unicode_isspace db) (rev ws @ rev s) = dropWhile (unicode_isspace db) (rev s)"
    by (rule dropWhile_append2)
  have 3: "dropWhile (unicode_isspace db) (rev s) = rev s"
    using assms(1,3) by (intro dropWhile_hd) (simp_all add: hd_rev)
  show ?thesis
    by (simp add: strip_def 1 2 3)
qed

lemma split_no_sep: "sep \<notin> set b \<Longrightarrow> split sep b = [b]"
  by (induction b) auto

lemma split_at_sep: "sep \<notin> set a \<Longrightarrow> split sep (a @ sep # b) = a # split sep b"
  by (induction a) auto

text \<open>The parser reads the message \<^verbatim>\<open>###RESIZE###<columns>,<rows>\<close> back, with or without
  a newline behind it.\<close>

lemma parse_resize_message:
  assumes "trailer = [] \<or> trailer = [CHR 0x0A]"
  shows "parse_resize db (resize_message cols rows @ trailer) = Inr (cols, rows)"
proof -
  define ws :: str where "ws = map of_char trailer"
  define body where "body = repr_int cols @ 44 # repr_int rows"
  have tr: "trailer = ascii_encode ws" and wsp: "list_all (unicode_isspace db) ws"
    and wa: "list_all (\<lambda>c. c < 128) ws"
    using assms by (auto simp: ws_def ascii_encode_def unicode_isspace_def)
  have msg: "drop (length RESIZE) (resize_message cols rows @ trailer) = ascii_encode (body @ ws)"
    by (simp add: resize_message_def tr ascii_encode_def body_def)
  have "list_all (\<lambda>c. c < 128) (body @ ws)"
    using repr_int_ascii [of cols] repr_int_ascii [of rows] wa by (simp add: body_def)
  then have dec: "decode (ascii_encode (body @ ws)) = Inr (body @ ws)"
    by (rule decode_ascii)
  have ne: "body \<noteq> []" by (simp add: body_def)
  have hd: "\<not> unicode_isspace db (hd body)"
    using repr_int_hd [of db cols] repr_int_nonempty [of cols] by (simp add: body_def)
  have la: "\<not> unicode_isspace db (last body)"
    using repr_int_last [of db rows] repr_int_nonempty [of rows] by (simp add: body_def)
  have st: "strip db (body @ ws) = body"
    by (rule strip_trailing [OF ne hd la wsp])
  have sp: "split 44 body = [repr_int cols, repr_int rows]"
    unfolding body_def
    by (simp add: split_at_sep [OF repr_int_no_comma] split_no_sep [OF repr_int_no_comma])
  show ?thesis
    unfolding parse_resize_def msg dec
    by (simp add: st sp py_int_repr_int cons_ok_def)
qed

lemma startswith_resize_message: "startswith (resize_message cols rows @ trailer) RESIZE"
  by (simp add: startswith_def resize_message_def)

subsection \<open>Applying a resize\<close>

lemma apply_resize_parsed:
  assumes "parse_resize db data = Inr (cols, rows)" and "fits_short cols" and "fits_short rows"
  shows "apply_resize db master pid it data =
     then_do
       (call (Ioctl_TIOCSWINSZ master
                \<lparr>ws_row = word_of_int rows, ws_col = word_of_int cols,
                  ws_xpixel = 0, ws_ypixel = 0\<rparr>) (ioctl_r it))
       (\<lambda>_. call (Kill pid SIGWINCH) (kill_winch_r it))"
  using assms by (simp add: apply_resize_def pack_hhhh_def fits_short_def)

lemma apply_resize_unfit:
  assumes "parse_resize db data = Inr (cols, rows)" and "\<not> (fits_short cols \<and> fits_short rows)"
  shows "apply_resize db master pid it data = ([], Inl StructError)"
  using assms by (auto simp: apply_resize_def pack_hhhh_def)

lemma on_stdin_resize_applied:
  assumes "stdin_read_r it = Inr d" and "startswith (take 1024 d) RESIZE"
    and "parse_resize db (take 1024 d) = Inr (cols, rows)"
    and "fits_short cols" and "fits_short rows"
    and "ioctl_r it = Inr ()" and "kill_winch_r it = Inr ()"
  shows "on_stdin db master pid it =
     ([(Read stdin_fileno 1024, None),
       (Ioctl_TIOCSWINSZ master
          \<lparr>ws_row = word_of_int rows, ws_col = word_of_int cols,
            ws_xpixel = 0, ws_ypixel = 0\<rparr>, None),
       (Kill pid SIGWINCH, None)], Inr Continue)"
proof -
  have "apply_resize db master pid it (take 1024 d) =
     ([(Ioctl_TIOCSWINSZ master
          \<lparr>ws_row = word_of_int rows, ws_col = word_of_int cols,
            ws_xpixel = 0, ws_ypixel = 0\<rparr>, None),
       (Kill pid SIGWINCH, None)], Inr ())"
    using assms(6,7) by (simp add: apply_resize_parsed [OF assms(3,4,5)] call_def then_do_def)
  from on_stdin_resize [OF assms(1,2) this] show ?thesis by simp
qed

lemma sint_short: "fits_short v \<Longrightarrow> sint (word_of_int v :: 16 word) = v"
  by (simp add: fits_short_def signed_of_int signed_take_bit_int_eq_self)

lemma uint_short: "fits_short v \<Longrightarrow> 0 \<le> v \<Longrightarrow> uint (word_of_int v :: 16 word) = v"
  by (simp add: fits_short_def unsigned_of_int take_bit_int_eq_self)

text \<open>
  Claim C2, as the code has it.  For a chunk \<^verbatim>\<open>###RESIZE###<columns>,<rows>\<close>, alone or
  followed by a newline: when both integers lie in \<open>0..32767\<close> and the device accepts the
  request, the bridge sets the size record of the master to exactly that many rows (first
  field) and columns (second field), both pixel fields zero, and then sends
  \<^verbatim>\<open>SIGWINCH\<close> to the child.  When one of the integers lies outside \<open>-32768..32767\<close>,
  nothing is set and nothing is sent: the branch makes no call after the read and goes on.
\<close>

theorem resize_message_sets_window:
  assumes "stdin_read_r it = Inr d" and "take 1024 d = resize_message cols rows @ trailer"
    and "trailer = [] \<or> trailer = [CHR 0x0A]"
  shows "(0 \<le> cols \<and> cols \<le> 32767 \<and> 0 \<le> rows \<and> rows \<le> 32767
          \<and> ioctl_r it = Inr () \<and> kill_winch_r it = Inr () \<longrightarrow>
        on_stdin db master pid it =
          ([(Read stdin_fileno 1024, None),
            (Ioctl_TIOCSWINSZ master
               \<lparr>ws_row = word_of_int rows, ws_col = word_of_int cols,
                 ws_xpixel = 0, ws_ypixel = 0\<rparr>, None),
            (Kill pid SIGWINCH, None)], Inr Continue)
        \<and> winsize_after master w0 (fst (on_stdin db master pid it)) =
            Some \<lparr>ws_row = word_of_int rows, ws_col = word_of_int cols,
                   ws_xpixel = 0, ws_ypixel = 0\<rparr>
        \<and> uint (word_of_int cols :: 16 word) = cols
        \<and> uint (word_of_int rows :: 16 word) = rows)
    \<and> (\<not> (fits_short cols \<and> fits_short rows) \<longrightarrow>
        on_stdin db master pid it = ([(Read stdin_fileno 1024, None)], Inr Continue))"
proof (intro conjI impI)
  have s: "startswith (take 1024 d) RESIZE"
    unfolding assms(2) by (rule startswith_resize_message)
  have p: "parse_resize db (take 1024 d) = Inr (cols, rows)"
    unfolding assms(2) by (rule parse_resize_message [OF assms(3)])
  {
    assume a: "0 \<le> cols \<and> cols \<le> 32767 \<and> 0 \<le> rows \<and> rows \<le> 32767
          \<and> ioctl_r it = Inr () \<and> kill_winch_r it = Inr ()"
    then have f: "fits_short cols" "fits_short rows"
      by (simp_all add: fits_short_def)
    from a have i: "ioctl_r it = Inr ()" and k: "kill_winch_r it = Inr ()"
      by simp_all
    note t = on_stdin_resize_applied [OF assms(1) s p f i k, of master pid]
    show "on_stdin db master pid it =
          ([(Read stdin_fileno 1024, None),
            (Ioctl_TIOCSWINSZ master
               \<lparr>ws_row = word_of_int rows, ws_col = word_of_int cols,
                 ws_xpixel = 0, ws_ypixel = 0\<rparr>, None),
            (Kill pid SIGWINCH, None)], Inr Continue)"
      by (rule t)
    show "winsize_after master w0 (fst (on_stdin db master pid it)) =
            Some \<lparr>ws_row = word_of_int rows, ws_col = word_of_int cols,
                   ws_xpixel = 0, ws_ypixel = 0\<rparr>"
      by (simp add: t)
    show "uint (word_of_int cols :: 16 word) = cols"
      using a by (intro uint_short f) simp
    show "uint (word_of_int rows :: 16 word) = rows"
      using a by (intro uint_short f) simp
  }
  {
    assume "\<not> (fits_short cols \<and> fits_short rows)"
    from on_stdin_resize [OF assms(1) s apply_resize_unfit [OF p this]]
    show "on_stdin db master pid it = ([(Read stdin_fileno 1024, None)], Inr Continue)"
      by simp
  }
qed

theorem resize_message_sets_window_witness:
  "stdin_read_r (stdin_chunk (''###RESIZE###80,24'' @ [CHR 0x0A]))
      = Inr (''###RESIZE###80,24'' @ [CHR 0x0A])
   \<and> take 1024 (''###RESIZE###80,24'' @ [CHR 0x0A]) = resize_message 80 24 @ [CHR 0x0A]
   \<and> ioctl_r (stdin_chunk (''###RESIZE###80,24'' @ [CHR 0x0A])) = Inr ()
   \<and> kill_winch_r (stdin_chunk (''###RESIZE###80,24'' @ [CHR 0x0A])) = Inr ()
   \<and> on_stdin ascii_db 3 4242 (stdin_chunk (''###RESIZE###80,24'' @ [CHR 0x0A])) =
       ([(Read stdin_fileno 1024, None),
         (Ioctl_TIOCSWINSZ 3 \<lparr>ws_row = 24, ws_col = 80, ws_xpixel = 0, ws_ypixel = 0\<rparr>, None),
         (Kill 4242 SIGWINCH, None)], Inr Continue)
   \<and> winsize_after 3 None
        (fst (on_stdin ascii_db 3 4242 (stdin_chunk (''###RESIZE###80,24'' @ [CHR 0x0A]))))
       = Some \<lparr>ws_row = 24, ws_col = 80, ws_xpixel = 0, ws_ypixel = 0\<rparr>
   \<and> stdin_read_r (stdin_chunk ''###RESIZE###80,40000'') = Inr ''###RESIZE###80,40000''
   \<and> take 1024 ''###RESIZE###80,40000'' = resize_message 80 40000 @ []
   \<and> \<not> (fits_short 80 \<and> fits_short 40000)
   \<and> on_stdin ascii_db 3 4242 (stdin_chunk ''###RESIZE###80,40000'')
       = ([(Read stdin_fileno 1024, None)], Inr Continue)"
proof -
  have r: "stdin_read_r (stdin_chunk (''###RESIZE###80,24'' @ [CHR 0x0A]))
      = Inr (''###RESIZE###80,24'' @ [CHR 0x0A])"
    and i: "ioctl_r (stdin_chunk (''###RESIZE###80,24'' @ [CHR 0x0A])) = Inr ()"
    and k: "kill_winch_r (stdin_chunk (''###RESIZE###80,24'' @ [CHR 0x0A])) = Inr ()"
    and r': "stdin_read_r (stdin_chunk ''###RESIZE###80,40000'') = Inr ''###RESIZE###80,40000''"
    by (simp_all add: stdin_chunk_def idle_def)
  have m: "take 1024 (''###RESIZE###80,24'' @ [CHR 0x0A]) = resize_message 80 24 @ [CHR 0x0A]"
    by code_simp
  have m': "take 1024 ''###RESIZE###80,40000'' = resize_message 80 40000 @ []"
    by (simp add: resize_message_def RESIZE_def ascii_encode_def repr_int_def digits.simps)
       code_simp
  have t: "[CHR 0x0A] = [] \<or> [CHR 0x0A] = [CHR 0x0A]" and t': "[] = [] \<or> [] = [CHR 0x0A]"
    by simp_all
  have u: "\<not> (fits_short 80 \<and> fits_short 40000)"
    by (simp add: fits_short_def)
  note th = resize_message_sets_window [OF r m t, of ascii_db 3 4242 None]
  note th' = resize_message_sets_window [OF r' m' t', of ascii_db 3 4242 None]
  from th i k have a: "on_stdin ascii_db 3 4242 (stdin_chunk (''###RESIZE###80,24'' @ [CHR 0x0A])) =
       ([(Read stdin_fileno 1024, None),
         (Ioctl_TIOCSWINSZ 3 \<lparr>ws_row = 24, ws_col = 80, ws_xpixel = 0, ws_ypixel = 0\<rparr>, None),
         (Kill 4242 SIGWINCH, None)], Inr Continue)"
    by simp
  from th i k have b: "winsize_after 3 None
        (fst (on_stdin ascii_db 3 4242 (stdin_chunk (''###RESIZE###80,24'' @ [CHR 0x0A]))))
       = Some \<lparr>ws_row = 24, ws_col = 80, ws_xpixel = 0, ws_ypixel = 0\<rparr>"
    by simp
  from th' u have c: "on_stdin ascii_db 3 4242 (stdin_chunk ''###RESIZE###80,40000'')
       = ([(Read stdin_fileno 1024, None)], Inr Continue)"
    by blast
  from r m i k a b r' m' u c show ?thesis
    by (intro conjI)
qed

text \<open>Against C2 as it is written: both fields of \<^verbatim>\<open>###RESIZE###70000,24\<close> parse as
  integers, yet no size is set and no signal is sent; both fields of
  \<^verbatim>\<open>###RESIZE###-1,-2\<close> parse as integers, and the device is set to 65535 columns and
  65534 rows; and when the device refuses the request, no signal is sent.\<close>

theorem resize_out_of_range_counterexample:
  "parse_resize ascii_db (''###RESIZE###70000,24'' @ [CHR 0x0A]) = Inr (70000, 24)
   \<and> on_stdin ascii_db 3 4242 (stdin_chunk (''###RESIZE###70000,24'' @ [CHR 0x0A]))
       = ([(Read stdin_fileno 1024, None)], Inr Continue)
   \<and> parse_resize ascii_db ''###RESIZE###-1,-2'' = Inr (- 1, - 2)
   \<and> on_stdin ascii_db 3 4242 (stdin_chunk ''###RESIZE###-1,-2'')
       = ([(Read stdin_fileno 1024, None),
           (Ioctl_TIOCSWINSZ 3
              \<lparr>ws_row = 65534, ws_col = 65535, ws_xpixel = 0, ws_ypixel = 0\<rparr>, None),
           (Kill 4242 SIGWINCH, None)], Inr Continue)
   \<and> uint (65535 :: 16 word) = 65535 \<and> uint (65534 :: 16 word) = 65534
   \<and> on_stdin ascii_db 3 4242
        ((stdin_chunk (''###RESIZE###80,24'' @ [CHR 0x0A]))\<lparr>ioctl_r := Inl OSError\<rparr>)
       = ([(Read stdin_fileno 1024, None),
           (Ioctl_TIOCSWINSZ 3 \<lparr>ws_row = 24, ws_col = 80, ws_xpixel = 0, ws_ypixel = 0\<rparr>,
            Some OSError)], Inr Continue)"
proof -
  have p1: "parse_resize ascii_db (take 1024 (''###RESIZE###70000,24'' @ [CHR 0x0A]))
      = Inr (70000, 24)"
    and p2: "parse_resize ascii_db (take 1024 (''###RESIZE###80,24'' @ [CHR 0x0A]))
      = Inr (80, 24)"
    and p3: "parse_resize ascii_db (take 1024 ''###RESIZE###-1,-2'') = Inr (- 1, - 2)"
    by code_simp+
  have s1: "startswith (take 1024 (''###RESIZE###70000,24'' @ [CHR 0x0A])) RESIZE"
    and s2: "startswith (take 1024 (''###RESIZE###80,24'' @ [CHR 0x0A])) RESIZE"
    and s3: "startswith (take 1024 ''###RESIZE###-1,-2'') RESIZE"
    by (simp_all add: startswith_def RESIZE_def)
  have a1: "apply_resize ascii_db 3 4242 (stdin_chunk (''###RESIZE###70000,24'' @ [CHR 0x0A]))
      (take 1024 (''###RESIZE###70000,24'' @ [CHR 0x0A])) = ([], Inl StructError)"
    by (rule apply_resize_unfit [OF p1]) (simp add: fits_short_def)
  have a2: "apply_resize ascii_db 3 4242
      ((stdin_chunk (''###RESIZE###80,24'' @ [CHR 0x0A]))\<lparr>ioctl_r := Inl OSError\<rparr>)
      (take 1024 (''###RESIZE###80,24'' @ [CHR 0x0A]))
      = ([(Ioctl_TIOCSWINSZ 3 \<lparr>ws_row = 24, ws_col = 80, ws_xpixel = 0, ws_ypixel = 0\<rparr>,
           Some OSError)], Inl OSError)"
    by (subst apply_resize_parsed [OF p2]) (simp_all add: fits_short_def call_def then_do_def)
  have r1: "stdin_read_r (stdin_chunk (''###RESIZE###70000,24'' @ [CHR 0x0A]))
      = Inr (''###RESIZE###70000,24'' @ [CHR 0x0A])"
    and r2: "stdin_read_r ((stdin_chunk (''###RESIZE###80,24'' @ [CHR 0x0A]))\<lparr>ioctl_r := Inl OSError\<rparr>)
      = Inr (''###RESIZE###80,24'' @ [CHR 0x0A])"
    and r3: "stdin_read_r (stdin_chunk ''###RESIZE###-1,-2'') = Inr ''###RESIZE###-1,-2''"
    and i3: "ioctl_r (stdin_chunk ''###RESIZE###-1,-2'') = Inr ()"
    and k3: "kill_winch_r (stdin_chunk ''###RESIZE###-1,-2'') = Inr ()"
    by (simp_all add: stdin_chunk_def idle_def)
  have f3: "fits_short (- 1)" "fits_short (- 2)"
    by (simp_all add: fits_short_def)
  have w: "(word_of_int (- 1) :: 16 word) = 65535" "(word_of_int (- 2) :: 16 word) = 65534"
    by simp_all
  have c3: "on_stdin ascii_db 3 4242 (stdin_chunk ''###RESIZE###-1,-2'')
       = ([(Read stdin_fileno 1024, None),
           (Ioctl_TIOCSWINSZ 3
              \<lparr>ws_row = 65534, ws_col = 65535, ws_xpixel = 0, ws_ypixel = 0\<rparr>, None),
           (Kill 4242 SIGWINCH, None)], Inr Continue)"
    unfolding on_stdin_resize_applied [OF r3 s3 p3 f3 i3 k3] w ..
  have u: "uint (65535 :: 16 word) = 65535" "uint (65534 :: 16 word) = 65534"
    by simp_all
  from p1 p3 c3 u on_stdin_resize [OF r1 s1 a1] on_stdin_resize [OF r2 s2 a2]
  show ?thesis by simp
qed

text \<open>
  Claim C10.  The parser checks nothing beyond the two integers.  For a chunk
  \<^verbatim>\<open>###RESIZE###<columns>,<rows>\<close>, alone or followed by a newline, whose integers fit a
  signed 16-bit field, be they positive, zero or negative, the message is not rejected:
  the bridge calls \<^verbatim>\<open>TIOCSWINSZ\<close> on the master with rows and columns as given (the two
  fields hold them as signed 16-bit values), and sends \<^verbatim>\<open>SIGWINCH\<close> to the child as soon
  as that call returns.
\<close>

theorem resize_accepts_any_short:
  assumes "stdin_read_r it = Inr d" and "take 1024 d = resize_message cols rows @ trailer"
    and "trailer = [] \<or> trailer = [CHR 0x0A]"
    and "fits_short cols" and "fits_short rows"
  shows "map fst (fst (on_stdin db master pid it)) =
     [Read stdin_fileno 1024,
      Ioctl_TIOCSWINSZ master
        \<lparr>ws_row = word_of_int rows, ws_col = word_of_int cols, ws_xpixel = 0, ws_ypixel = 0\<rparr>]
     @ (if ioctl_r it = Inr () then [Kill pid SIGWINCH] else [])
    \<and> sint (word_of_int cols :: 16 word) = cols \<and> sint (word_of_int rows :: 16 word) = rows
    \<and> (if ioctl_r it = Inr () \<and> kill_winch_r it = Inr ()
        then on_stdin db master pid it =
          ([(Read stdin_fileno 1024, None),
            (Ioctl_TIOCSWINSZ master
               \<lparr>ws_row = word_of_int rows, ws_col = word_of_int cols,
                 ws_xpixel = 0, ws_ypixel = 0\<rparr>, None),
            (Kill pid SIGWINCH, None)], Inr Continue)
        else True)"
proof -
  have s: "startswith (take 1024 d) RESIZE"
    unfolding assms(2) by (rule startswith_resize_message)
  have p: "parse_resize db (take 1024 d) = Inr (cols, rows)"
    unfolding assms(2) by (rule parse_resize_message [OF assms(3)])
  obtain tr r where ar: "apply_resize db master pid it (take 1024 d) = (tr, r)"
    by (cases "apply_resize db master pid it (take 1024 d)")
  have "map fst tr =
     Ioctl_TIOCSWINSZ master
        \<lparr>ws_row = word_of_int rows, ws_col = word_of_int cols, ws_xpixel = 0, ws_ypixel = 0\<rparr>
     # (if ioctl_r it = Inr () then [Kill pid SIGWINCH] else [])"
    using ar unfolding apply_resize_parsed [OF p assms(4,5)]
    by (cases "ioctl_r it"; cases "kill_winch_r it") (auto simp: call_def then_do_def)
  then have 1: "map fst (fst (on_stdin db master pid it)) =
     [Read stdin_fileno 1024,
      Ioctl_TIOCSWINSZ master
        \<lparr>ws_row = word_of_int rows, ws_col = word_of_int cols, ws_xpixel = 0, ws_ypixel = 0\<rparr>]
     @ (if ioctl_r it = Inr () then [Kill pid SIGWINCH] else [])"
    by (simp add: on_stdin_resize [OF assms(1) s ar])
  have 2: "sint (word_of_int cols :: 16 word) = cols" "sint (word_of_int rows :: 16 word) = rows"
    by (simp_all add: sint_short assms(4,5))
  have 3: "on_stdin db master pid it =
          ([(Read stdin_fileno 1024, None),
            (Ioctl_TIOCSWINSZ master
               \<lparr>ws_row = word_of_int rows, ws_col = word_of_int cols,
                 ws_xpixel = 0, ws_ypixel = 0\<rparr>, None),
            (Kill pid SIGWINCH, None)], Inr Continue)"
    if "ioctl_r it = Inr ()" "kill_winch_r it = Inr ()"
    by (rule on_stdin_resize_applied [OF assms(1) s p assms(4,5) that])
  from 1 2 3 show ?thesis by simp
qed

theorem resize_accepts_any_short_witness:
  "take 1024 ''###RESIZE###0,0'' = resize_message 0 0 @ []
   \<and> fits_short 0
   \<and> on_stdin ascii_db 3 4242 (stdin_chunk ''###RESIZE###0,0'') =
       ([(Read stdin_fileno 1024, None),
         (Ioctl_TIOCSWINSZ 3 \<lparr>ws_row = 0, ws_col = 0, ws_xpixel = 0, ws_ypixel = 0\<rparr>, None),
         (Kill 4242 SIGWINCH, None)], Inr Continue)
   \<and> take 1024 (''###RESIZE###-1,-1'' @ [CHR 0x0A]) = resize_message (- 1) (- 1) @ [CHR 0x0A]
   \<and> fits_short (- 1)
   \<and> on_stdin ascii_db 3 4242 (stdin_chunk (''###RESIZE###-1,-1'' @ [CHR 0x0A])) =
       ([(Read stdin_fileno 1024, None),
         (Ioctl_TIOCSWINSZ 3 \<lparr>ws_row = - 1, ws_col = - 1, ws_xpixel = 0, ws_ypixel = 0\<rparr>,
          None),
         (Kill 4242 SIGWINCH, None)], Inr Continue)"
proof -
  have r: "stdin_read_r (stdin_chunk ''###RESIZE###0,0'') = Inr ''###RESIZE###0,0''"
    "stdin_read_r (stdin_chunk (''###RESIZE###-1,-1'' @ [CHR 0x0A]))
       = Inr (''###RESIZE###-1,-1'' @ [CHR 0x0A])"
    and i: "ioctl_r (stdin_chunk ''###RESIZE###0,0'') = Inr ()"
    "ioctl_r (stdin_chunk (''###RESIZE###-1,-1'' @ [CHR 0x0A])) = Inr ()"
    and k: "kill_winch_r (stdin_chunk ''###RESIZE###0,0'') = Inr ()"
    "kill_winch_r (stdin_chunk (''###RESIZE###-1,-1'' @ [CHR 0x0A])) = Inr ()"
    by (simp_all add: stdin_chunk_def idle_def)
  have m0: "take 1024 ''###RESIZE###0,0'' = resize_message 0 0 @ []"
    by code_simp
  have m1: "take 1024 (''###RESIZE###-1,-1'' @ [CHR 0x0A])
      = resize_message (- 1) (- 1) @ [CHR 0x0A]"
    by code_simp
  have t: "[] = [] \<or> [] = [CHR 0x0A]" "[CHR 0x0A] = [] \<or> [CHR 0x0A] = [CHR 0x0A]"
    by simp_all
  have f: "fits_short 0" "fits_short (- 1)"
    by (simp_all add: fits_short_def)
  note th0 = resize_accepts_any_short [OF r(1) m0 t(1) f(1) f(1), of ascii_db 3 4242]
  note th1 = resize_accepts_any_short [OF r(2) m1 t(2) f(2) f(2), of ascii_db 3 4242]
  from th0 i(1) k(1) have a: "on_stdin ascii_db 3 4242 (stdin_chunk ''###RESIZE###0,0'') =
       ([(Read stdin_fileno 1024, None),
         (Ioctl_TIOCSWINSZ 3 \<lparr>ws_row = 0, ws_col = 0, ws_xpixel = 0, ws_ypixel = 0\<rparr>, None),
         (Kill 4242 SIGWINCH, None)], Inr Continue)"
    by simp
  from th1 i(2) k(2)
  have b: "on_stdin ascii_db 3 4242 (stdin_chunk (''###RESIZE###-1,-1'' @ [CHR 0x0A])) =
       ([(Read stdin_fileno 1024, None),
         (Ioctl_TIOCSWINSZ 3 \<lparr>ws_row = - 1, ws_col = - 1, ws_xpixel = 0, ws_ypixel = 0\<rparr>,
          None),
         (Kill 4242 SIGWINCH, None)], Inr Continue)"
    by simp
  from m0 f(1) a m1 f(2) b show ?thesis
    by (intro conjI)
qed

text \<open>
  Claim C7, as the code has it.  When a resize is applied, \<^verbatim>\<open>SIGWINCH\<close> is sent with
  \<^verbatim>\<open>os.kill(process.pid, ...)\<close>: to the child process alone, whose pid is positive, not to
  its process group.
\<close>

theorem winch_goes_to_child_process:
  assumes "stdin_read_r it = Inr d" and "startswith (take 1024 d) RESIZE"
    and "parse_resize db (take 1024 d) = Inr (cols, rows)"
    and "fits_short cols" and "fits_short rows"
    and "ioctl_r it = Inr ()" and "kill_winch_r it = Inr ()" and "0 < pid"
  shows "signalled (fst (on_stdin db master pid it)) = [(Process pid, SIGWINCH)]"
  using assms(8)
  by (simp add: on_stdin_resize_applied [OF assms(1-7)] kill_target_def)

theorem winch_goes_to_child_process_witness:
  "stdin_read_r (stdin_chunk ''###RESIZE###132,43'') = Inr ''###RESIZE###132,43''
   \<and> startswith (take 1024 ''###RESIZE###132,43'') RESIZE
   \<and> parse_resize ascii_db (take 1024 ''###RESIZE###132,43'') = Inr (132, 43)
   \<and> fits_short 132 \<and> fits_short 43 \<and> (0::int) < 4242
   \<and> signalled (fst (on_stdin ascii_db 3 4242 (stdin_chunk ''###RESIZE###132,43'')))
       = [(Process 4242, SIGWINCH)]"
proof -
  have r: "stdin_read_r (stdin_chunk ''###RESIZE###132,43'') = Inr ''###RESIZE###132,43''"
    and i: "ioctl_r (stdin_chunk ''###RESIZE###132,43'') = Inr ()"
    and k: "kill_winch_r (stdin_chunk ''###RESIZE###132,43'') = Inr ()"
    by (simp_all add: stdin_chunk_def idle_def)
  have s: "startswith (take 1024 ''###RESIZE###132,43'') RESIZE"
    by (simp add: startswith_def RESIZE_def)
  have p: "parse_resize ascii_db (take 1024 ''###RESIZE###132,43'') = Inr (132, 43)"
    by code_simp
  have f: "fits_short 132" "fits_short 43" "(0::int) < 4242"
    by (simp_all add: fits_short_def)
  from winch_goes_to_child_process [OF r s p f(1,2) i k f(3), of 3] r s p f
  show ?thesis by simp
qed

text \<open>Against C7 as it is written: the resize \<^verbatim>\<open>###RESIZE###80,24\<close> is applied, and the only
  signal of the pass goes to process 4242; none goes to a process group.\<close>

theorem winch_not_to_group_counterexample:
  "signalled (fst (on_stdin ascii_db 3 4242 (stdin_chunk ''###RESIZE###80,24'')))
     = [(Process 4242, SIGWINCH)]
   \<and> (Group 4242, SIGWINCH)
       \<notin> set (signalled (fst (on_stdin ascii_db 3 4242 (stdin_chunk ''###RESIZE###80,24''))))"
proof -
  have r: "stdin_read_r (stdin_chunk ''###RESIZE###80,24'') = Inr ''###RESIZE###80,24''"
    and i: "ioctl_r (stdin_chunk ''###RESIZE###80,24'') = Inr ()"
    and k: "kill_winch_r (stdin_chunk ''###RESIZE###80,24'') = Inr ()"
    by (simp_all add: stdin_chunk_def idle_def)
  have s: "startswith (take 1024 ''###RESIZE###80,24'') RESIZE"
    by (simp add: startswith_def RESIZE_def)
  have p: "parse_resize ascii_db (take 1024 ''###RESIZE###80,24'') = Inr (80, 24)"
    by code_simp
  have f: "fits_short 80" "fits_short 24"
    by (simp_all add: fits_short_def)
  show ?thesis
    by (simp add: on_stdin_resize_applied [OF r s p f i k] kill_target_def)
qed

subsection \<open>An interrupt of the bridge\<close>

lemma interrupted_simps:
  "interrupted [] = False"
  "interrupted ((c, x) # evs) = (x = Some KeyboardInterrupt \<or> interrupted evs)"
  "interrupted (tr @ tr') = (interrupted tr \<or> interrupted tr')"
  by (simp_all add: interrupted_def)

lemma call_interrupt:
  "stops_at_interrupt (fst (call c a)) (snd (call c a) = Inl KeyboardInterrupt)"
  by (cases a) (simp_all add: call_def stops_at_interrupt_def interrupted_simps)

lemma apply_resize_interrupt:
  "stops_at_interrupt (fst (apply_resize db master pid it data))
     (snd (apply_resize db master pid it data) = Inl KeyboardInterrupt)"
  by (cases "ioctl_r it"; cases "kill_winch_r it")
     (simp_all add: apply_resize_def call_def then_do_def stops_at_interrupt_def
        interrupted_simps split: sum.splits prod.splits)

lemma on_stdin_interrupt:
  "stops_at_interrupt (fst (on_stdin db master pid it))
     (snd (on_stdin db master pid it) = Inl KeyboardInterrupt)"
proof (cases "stdin_read_r it")
  case (Inl e)
  then show ?thesis
    by (cases e)
       (simp_all add: on_stdin_def act_defs stops_at_interrupt_def interrupted_simps)
next
  case (Inr d)
  show ?thesis
  proof (cases "take 1024 d = []")
    case True
    from on_stdin_empty [OF Inr True] show ?thesis
      by (simp add: stops_at_interrupt_def interrupted_simps)
  next
    case ne: False
    show ?thesis
    proof (cases "startswith (take 1024 d) RESIZE")
      case True
      obtain tr r where ar: "apply_resize db master pid it (take 1024 d) = (tr, r)"
        by (cases "apply_resize db master pid it (take 1024 d)")
      from apply_resize_interrupt [of db master pid it "take 1024 d"] ar
      have "stops_at_interrupt tr (r = Inl KeyboardInterrupt)" by simp
      then show ?thesis
        unfolding on_stdin_resize [OF Inr True ar]
        by (cases r) (auto simp: stops_at_interrupt_def interrupted_simps)
    next
      case False
      show ?thesis
        unfolding on_stdin_forward [OF Inr False ne]
        by (cases "master_write_r it")
           (auto simp: stops_at_interrupt_def interrupted_simps)
    qed
  qed
qed

lemma on_master_interrupt:
  "stops_at_interrupt (fst (on_master master it))
     (snd (on_master master it) = Inl KeyboardInterrupt)"
proof (cases "master_read_r it")
  case (Inl e)
  then show ?thesis
    by (cases e)
       (simp_all add: on_master_def act_defs stops_at_interrupt_def interrupted_simps)
next
  case (Inr d)
  then show ?thesis
    by (cases "stdout_write_r it"; cases "stdout_flush_r it")
       (auto simp: on_master_def act_defs stops_at_interrupt_def interrupted_simps)
qed

lemma on_ready_interrupt:
  "stops_at_interrupt (fst (on_ready db master pid it src))
     (snd (on_ready db master pid it src) = Inl KeyboardInterrupt)"
  by (cases src) (simp_all add: on_ready_def on_stdin_interrupt on_master_interrupt)

lemma stops_at_interrupt_append:
  assumes "stops_at_interrupt tr False" and "stops_at_interrupt tr' raised"
  shows "stops_at_interrupt (tr @ tr') raised"
  using assms by (auto simp: stops_at_interrupt_def interrupted_simps split: if_splits)

lemma stops_at_interrupt_weaken:
  assumes "stops_at_interrupt tr raised" and "\<not> raised"
  shows "stops_at_interrupt tr False"
  using assms by (auto simp: stops_at_interrupt_def split: if_splits)

lemma for_each_interrupt:
  assumes "\<And>x. stops_at_interrupt (fst (body x)) (snd (body x) = Inl KeyboardInterrupt)"
  shows "stops_at_interrupt (fst (for_each body xs))
     (snd (for_each body xs) = Inl KeyboardInterrupt)"
proof (induction xs)
  case Nil
  show ?case by (simp add: stops_at_interrupt_def interrupted_simps)
next
  case (Cons x xs)
  obtain tr r where b: "body x = (tr, r)" by (cases "body x")
  from assms [of x] b have s: "stops_at_interrupt tr (r = Inl KeyboardInterrupt)" by simp
  show ?case
  proof (cases r)
    case (Inl e)
    with b s show ?thesis by simp
  next
    case (Inr c)
    with s have f: "stops_at_interrupt tr False"
      by (intro stops_at_interrupt_weaken [OF s]) simp
    show ?thesis
    proof (cases c)
      case Continue
      obtain tr' r' where fe: "for_each body xs = (tr', r')" by (cases "for_each body xs")
      with Cons.IH have "stops_at_interrupt tr' (r' = Inl KeyboardInterrupt)" by simp
      from stops_at_interrupt_append [OF f this] b Inr Continue fe show ?thesis by simp
    next
      case Break
      with b Inr f show ?thesis by simp
    qed
  qed
qed

lemma multiplex_interrupt:
  "stops_at_interrupt (fst (multiplex db master pid its))
     (snd (multiplex db master pid its) = Raised KeyboardInterrupt)"
proof (induction its)
  case Nil
  show ?case by (simp add: stops_at_interrupt_def interrupted_simps)
next
  case (Cons it its)
  obtain tr'' r'' where m: "multiplex db master pid its = (tr'', r'')"
    by (cases "multiplex db master pid its")
  with Cons.IH have ih: "stops_at_interrupt tr'' (r'' = Raised KeyboardInterrupt)" by simp
  show ?case
  proof (cases "poll_r it")
    case (Inl e)
    then show ?thesis
      by (simp add: call_def stops_at_interrupt_def interrupted_simps)
  next
    case p: (Inr st)
    show ?thesis
    proof (cases st)
      case (Some status)
      with p show ?thesis
        by (simp add: call_def stops_at_interrupt_def interrupted_simps)
    next
      case None
      show ?thesis
      proof (cases "select_r it")
        case (Inl e)
        with p None show ?thesis
          by (simp add: call_def then_do_def stops_at_interrupt_def interrupted_simps)
      next
        case (Inr rdy)
        obtain tr' r' where fe:
          "for_each (on_ready db master pid it) (ready_list rdy) = (tr', r')"
          by (cases "for_each (on_ready db master pid it) (ready_list rdy)")
        from for_each_interrupt [of "on_ready db master pid it" "ready_list rdy",
            OF on_ready_interrupt] fe
        have s: "stops_at_interrupt tr' (r' = Inl KeyboardInterrupt)" by simp
        have pre: "stops_at_interrupt [(Poll, None), (Select, None)] False"
          by (simp add: stops_at_interrupt_def interrupted_simps)
        show ?thesis
        proof (cases r')
          case (Inl e)
          with s have "stops_at_interrupt tr' (Raised e = Raised KeyboardInterrupt)" by simp
          from stops_at_interrupt_append [OF pre this] p None Inr fe Inl show ?thesis
            by (simp add: call_def then_do_def)
        next
          case u: (Inr u)
          with s have "stops_at_interrupt tr' False"
            by (intro stops_at_interrupt_weaken [OF s]) simp
          from stops_at_interrupt_append [OF pre
              stops_at_interrupt_append [OF this ih]] p None Inr fe u m
          show ?thesis
            by (simp add: call_def then_do_def)
        qed
      qed
    qed
  qed
qed

subsection \<open>The session\<close>

lemma teardown_ok:
  assumes "close_master_r env = Inr ()" and "terminate_r env = Inr ()" and "wait_r env = Inr rc"
  shows "teardown master env = ([(Close master, None), (Terminate, None), (Wait, None)], Inr rc)"
  using assms by (simp add: teardown_def call_def then_do_def)

lemma teardown_calls:
  "map fst (fst (teardown master env)) =
     Close master #
       (if close_master_r env = Inr ()
        then Terminate # (if terminate_r env = Inr () then [Wait] else [])
        else [])"
  by (cases "close_master_r env"; cases "terminate_r env"; cases "wait_r env")
     (simp_all add: teardown_def call_def then_do_def)

text \<open>The session once the terminal pair is open, the child runs and the slave is closed
  in the bridge.\<close>

lemma create_pty_session_started:
  assumes "openpty_r env = Inr (master, slave)" and "popen_r env = Inr pid"
    and "close_slave_r env = Inr ()"
  shows "create_pty_session db environ env cmd cwd =
     (let start = [(Openpty, None),
                   (Popen cmd slave slave slave cwd (child_env environ cwd), None),
                   (Close slave, None)]
      in case multiplex db master pid (iters env) of
           (tr2, Unfinished) \<Rightarrow> (start @ tr2, Unfinished)
         | (tr2, Returned) \<Rightarrow>
             (case finally_block master env None of (tr4, r) \<Rightarrow> (start @ tr2 @ tr4, r))
         | (tr2, Raised e) \<Rightarrow>
             (case except_KeyboardInterrupt pid env e of
                (tr3, pending) \<Rightarrow>
                  (case finally_block master env pending of
                     (tr4, r) \<Rightarrow> (start @ tr2 @ tr3 @ tr4, r))))"
  using assms
  by (simp add: create_pty_session_def call_def then_do_def ret_def
        split: prod.splits outcome.splits)

lemma multiplex_interrupted_select:
  assumes "poll_r it = Inr None" and "select_r it = Inl KeyboardInterrupt"
  shows "multiplex db master pid (it # its) =
     ([(Poll, None), (Select, Some KeyboardInterrupt)], Raised KeyboardInterrupt)"
  using assms by (simp add: call_def then_do_def)

lemma multiplex_append:
  assumes "multiplex db master pid its = (tr, Unfinished)"
  shows "multiplex db master pid (its @ its') =
     (tr @ fst (multiplex db master pid its'), snd (multiplex db master pid its'))"
  using assms
proof (induction its arbitrary: tr)
  case Nil
  then show ?case by simp
next
  case (Cons it its)
  obtain tr'' r where m: "multiplex db master pid its = (tr'', r)"
    by (cases "multiplex db master pid its")
  from Cons.prems m have r: "r = Unfinished"
    by (auto simp: call_def then_do_def split: sum.splits option.splits prod.splits)
  from Cons.IH [OF m [unfolded r]] Cons.prems m r show ?case
    by (auto simp: call_def then_do_def split: sum.splits option.splits prod.splits)
qed

text \<open>
  Claim C3, as the code has it.  The \<^verbatim>\<open>try\<close> encloses the whole loop.  At whichever call
  of the loop an interrupt of the bridge arrives (polling the child, \<^verbatim>\<open>select\<close>, a read, a
  write, the \<^verbatim>\<open>ioctl\<close>, the \<^verbatim>\<open>kill\<close>, the flush), that call is the last of the loop:
  no handler inside the loop catches the interrupt.  The bridge then sends \<^verbatim>\<open>SIGINT\<close> to
  the child and goes on into the \<^verbatim>\<open>finally\<close> block: it closes the master, terminates
  the child and waits for it, and \<^verbatim>\<open>create_pty_session\<close> returns.  The loop is not
  entered again, whatever passes the world would still have answered.
\<close>

theorem interrupt_ends_session:
  assumes "openpty_r env = Inr (master, slave)" and "popen_r env = Inr pid"
    and "close_slave_r env = Inr ()"
    and "interrupted (fst (multiplex db master pid (iters env)))"
    and "kill_int_r env = Inr ()"
    and "close_master_r env = Inr ()" and "terminate_r env = Inr ()" and "wait_r env = Inr rc"
  shows "create_pty_session db environ env cmd cwd =
     ([(Openpty, None), (Popen cmd slave slave slave cwd (child_env environ cwd), None),
       (Close slave, None)]
      @ fst (multiplex db master pid (iters env))
      @ [(Kill pid SIGINT, None), (Close master, None), (Terminate, None), (Wait, None)],
      Returned)
    \<and> snd (last (fst (multiplex db master pid (iters env)))) = Some KeyboardInterrupt
    \<and> snd (multiplex db master pid (iters env)) = Raised KeyboardInterrupt"
proof -
  obtain tr r where m: "multiplex db master pid (iters env) = (tr, r)"
    by (cases "multiplex db master pid (iters env)")
  from multiplex_interrupt [of db master pid "iters env"] assms(4) m
  have r: "r = Raised KeyboardInterrupt" and l: "snd (last tr) = Some KeyboardInterrupt"
    by (simp_all add: stops_at_interrupt_def)
  have "create_pty_session db environ env cmd cwd =
     ([(Openpty, None), (Popen cmd slave slave slave cwd (child_env environ cwd), None),
       (Close slave, None)]
      @ tr
      @ [(Kill pid SIGINT, None), (Close master, None), (Terminate, None), (Wait, None)],
      Returned)"
    unfolding create_pty_session_started [OF assms(1,2,3)] m r Let_def
    by (simp add: except_KeyboardInterrupt_def finally_block_def call_def assms(5)
          teardown_ok [OF assms(6,7,8)])
  with m r l show ?thesis by simp
qed

theorem interrupt_ends_session_witness:
  "interrupted (fst (multiplex ascii_db 3 4242
      (iters (calm [idle, (stdin_chunk ''###RESIZE###80,24'')\<lparr>ioctl_r := Inl KeyboardInterrupt\<rparr>,
                    idle, idle]))))
   \<and> create_pty_session ascii_db []
      (calm [idle, (stdin_chunk ''###RESIZE###80,24'')\<lparr>ioctl_r := Inl KeyboardInterrupt\<rparr>,
             idle, idle])
      [''/bin/sh'', ''-l''] ''/tmp'' =
     ([(Openpty, None),
       (Popen [''/bin/sh'', ''-l''] 4 4 4 ''/tmp'' (child_env [] ''/tmp''), None),
       (Close 4, None),
       (Poll, None), (Select, None),
       (Poll, None), (Select, None), (Read stdin_fileno 1024, None),
       (Ioctl_TIOCSWINSZ 3 \<lparr>ws_row = 24, ws_col = 80, ws_xpixel = 0, ws_ypixel = 0\<rparr>,
        Some KeyboardInterrupt),
       (Kill 4242 SIGINT, None), (Close 3, None), (Terminate, None), (Wait, None)],
      Returned)
   \<and> interrupted (fst (multiplex ascii_db 3 4242
      (iters (calm [(stdin_chunk ''ls'')\<lparr>stdin_read_r := Inl KeyboardInterrupt\<rparr>, idle]))))
   \<and> create_pty_session ascii_db []
      (calm [(stdin_chunk ''ls'')\<lparr>stdin_read_r := Inl KeyboardInterrupt\<rparr>, idle])
      [''/bin/sh'', ''-l''] ''/tmp'' =
     ([(Openpty, None),
       (Popen [''/bin/sh'', ''-l''] 4 4 4 ''/tmp'' (child_env [] ''/tmp''), None),
       (Close 4, None),
       (Poll, None), (Select, None), (Read stdin_fileno 1024, Some KeyboardInterrupt),
       (Kill 4242 SIGINT, None), (Close 3, None), (Terminate, None), (Wait, None)],
      Returned)
   \<and> interrupted (fst (multiplex ascii_db 3 4242
      (iters (calm [(master_chunk ''hi'')\<lparr>stdout_flush_r := Inl KeyboardInterrupt\<rparr>, idle]))))
   \<and> create_pty_session ascii_db []
      (calm [(master_chunk ''hi'')\<lparr>stdout_flush_r := Inl KeyboardInterrupt\<rparr>, idle])
      [''/bin/sh'', ''-l''] ''/tmp'' =
     ([(Openpty, None),
       (Popen [''/bin/sh'', ''-l''] 4 4 4 ''/tmp'' (child_env [] ''/tmp''), None),
       (Close 4, None),
       (Poll, None), (Select, None), (Read 3 1024, None), (Stdout_write ''hi'', None),
       (Stdout_flush, Some KeyboardInterrupt),
       (Kill 4242 SIGINT, None), (Close 3, None), (Terminate, None), (Wait, None)],
      Returned)"
proof -
  define e1 where "e1 = calm [idle,
      (stdin_chunk ''###RESIZE###80,24'')\<lparr>ioctl_r := Inl KeyboardInterrupt\<rparr>, idle, idle]"
  define e2 where "e2 = calm [(stdin_chunk ''ls'')\<lparr>stdin_read_r := Inl KeyboardInterrupt\<rparr>, idle]"
  define e3 where "e3 = calm [(master_chunk ''hi'')\<lparr>stdout_flush_r := Inl KeyboardInterrupt\<rparr>, idle]"
  have m1: "multiplex ascii_db 3 4242 (iters e1) =
     ([(Poll, None), (Select, None),
       (Poll, None), (Select, None), (Read stdin_fileno 1024, None),
       (Ioctl_TIOCSWINSZ 3 \<lparr>ws_row = 24, ws_col = 80, ws_xpixel = 0, ws_ypixel = 0\<rparr>,
        Some KeyboardInterrupt)], Raised KeyboardInterrupt)"
    unfolding e1_def by code_simp
  have m2: "multiplex ascii_db 3 4242 (iters e2) =
     ([(Poll, None), (Select, None), (Read stdin_fileno 1024, Some KeyboardInterrupt)],
      Raised KeyboardInterrupt)"
    unfolding e2_def by code_simp
  have m3: "multiplex ascii_db 3 4242 (iters e3) =
     ([(Poll, None), (Select, None), (Read 3 1024, None), (Stdout_write ''hi'', None),
       (Stdout_flush, Some KeyboardInterrupt)], Raised KeyboardInterrupt)"
    unfolding e3_def by code_simp
  have i1: "interrupted (fst (multiplex ascii_db 3 4242 (iters e1)))"
    and i2: "interrupted (fst (multiplex ascii_db 3 4242 (iters e2)))"
    and i3: "interrupted (fst (multiplex ascii_db 3 4242 (iters e3)))"
    by (simp_all add: m1 m2 m3 interrupted_simps)
  have s: "openpty_r e1 = Inr (3, 4)" "popen_r e1 = Inr 4242" "close_slave_r e1 = Inr ()"
    "kill_int_r e1 = Inr ()" "close_master_r e1 = Inr ()" "terminate_r e1 = Inr ()"
    "wait_r e1 = Inr 0"
    "openpty_r e2 = Inr (3, 4)" "popen_r e2 = Inr 4242" "close_slave_r e2 = Inr ()"
    "kill_int_r e2 = Inr ()" "close_master_r e2 = Inr ()" "terminate_r e2 = Inr ()"
    "wait_r e2 = Inr 0"
    "openpty_r e3 = Inr (3, 4)" "popen_r e3 = Inr 4242" "close_slave_r e3 = Inr ()"
    "kill_int_r e3 = Inr ()" "close_master_r e3 = Inr ()" "terminate_r e3 = Inr ()"
    "wait_r e3 = Inr 0"
    by (simp_all add: e1_def e2_def e3_def calm_def)
  note t1 = interrupt_ends_session [OF s(1,2,3) i1 s(4,5,6,7), of "[]" "[''/bin/sh'', ''-l'']" "''/tmp''"]
  note t2 = interrupt_ends_session [OF s(8,9,10) i2 s(11,12,13,14), of "[]" "[''/bin/sh'', ''-l'']" "''/tmp''"]
  note t3 = interrupt_ends_session [OF s(15,16,17) i3 s(18,19,20,21), of "[]" "[''/bin/sh'', ''-l'']" "''/tmp''"]
  from t1 have c1: "create_pty_session ascii_db [] e1 [''/bin/sh'', ''-l''] ''/tmp'' =
     ([(Openpty, None),
       (Popen [''/bin/sh'', ''-l''] 4 4 4 ''/tmp'' (child_env [] ''/tmp''), None),
       (Close 4, None),
       (Poll, None), (Select, None),
       (Poll, None), (Select, None), (Read stdin_fileno 1024, None),
       (Ioctl_TIOCSWINSZ 3 \<lparr>ws_row = 24, ws_col = 80, ws_xpixel = 0, ws_ypixel = 0\<rparr>,
        Some KeyboardInterrupt),
       (Kill 4242 SIGINT, None), (Close 3, None), (Terminate, None), (Wait, None)],
      Returned)"
    by (simp add: m1)
  from t2 have c2: "create_pty_session ascii_db [] e2 [''/bin/sh'', ''-l''] ''/tmp'' =
     ([(Openpty, None),
       (Popen [''/bin/sh'', ''-l''] 4 4 4 ''/tmp'' (child_env [] ''/tmp''), None),
       (Close 4, None),
       (Poll, None), (Select, None), (Read stdin_fileno 1024, Some KeyboardInterrupt),
       (Kill 4242 SIGINT, None), (Close 3, None), (Terminate, None), (Wait, None)],
      Returned)"
    by (simp add: m2)
  from t3 have c3: "create_pty_session ascii_db [] e3 [''/bin/sh'', ''-l''] ''/tmp'' =
     ([(Openpty, None),
       (Popen [''/bin/sh'', ''-l''] 4 4 4 ''/tmp'' (child_env [] ''/tmp''), None),
       (Close 4, None),
       (Poll, None), (Select, None), (Read 3 1024, None), (Stdout_write ''hi'', None),
       (Stdout_flush, Some KeyboardInterrupt),
       (Kill 4242 SIGINT, None), (Close 3, None), (Terminate, None), (Wait, None)],
      Returned)"
    by (simp add: m3)
  from i1 c1 i2 c2 i3 c3 show ?thesis
    unfolding e1_def e2_def e3_def by (intro conjI)
qed

text \<open>Against C3 as it is written: the child still runs (the world has two more passes
  to answer), but after the interrupt the bridge neither polls nor selects again; it
  terminates the child and returns.\<close>

theorem interrupt_counterexample:
  "create_pty_session ascii_db [] (calm [idle\<lparr>select_r := Inl KeyboardInterrupt\<rparr>, idle, idle])
      [''/bin/sh'', ''-l''] ''/tmp'' =
     ([(Openpty, None),
       (Popen [''/bin/sh'', ''-l''] 4 4 4 ''/tmp''
          [(''TERM'', ''xterm-256color''), (''COLORTERM'', ''truecolor''), (''PWD'', ''/tmp'')],
        None),
       (Close 4, None),
       (Poll, None), (Select, Some KeyboardInterrupt),
       (Kill 4242 SIGINT, None), (Close 3, None), (Terminate, None), (Wait, None)],
      Returned)"
  by (simp add: create_pty_session_def calm_def idle_def call_def then_do_def ret_def
        child_env_def except_KeyboardInterrupt_def finally_block_def teardown_def)

text \<open>
  Claim C4.  What the code does when the child cannot be created: \<^verbatim>\<open>Popen\<close> raises after
  \<^verbatim>\<open>pty.openpty()\<close> has returned the pair 3 and 4, outside the \<^verbatim>\<open>try\<close>.  The exception
  leaves \<^verbatim>\<open>create_pty_session\<close> at once; no descriptor has been closed.
\<close>

theorem spawn_failure_leaks_descriptors:
  "create_pty_session ascii_db [] ((calm [idle])\<lparr>popen_r := Inl OSError\<rparr>)
      [''/nonexistent'', ''-l''] ''/tmp'' =
     ([(Openpty, None),
       (Popen [''/nonexistent'', ''-l''] 4 4 4 ''/tmp''
          [(''TERM'', ''xterm-256color''), (''COLORTERM'', ''truecolor''), (''PWD'', ''/tmp'')],
        Some OSError)],
      Raised OSError)
   \<and> closed (fst (create_pty_session ascii_db [] ((calm [idle])\<lparr>popen_r := Inl OSError\<rparr>)
      [''/nonexistent'', ''-l''] ''/tmp'')) = []"
  by (simp add: create_pty_session_def calm_def call_def then_do_def child_env_def)

text \<open>
  Claim C5, as the code has it.  Whenever the loop is left, by the child's exit or by an
  exception, the session ends with the \<^verbatim>\<open>finally\<close> block.  Its calls are, in this order,
  closing the master, terminating the child and waiting for it; each of the last two is
  made only when the call before it returned.  When none of them raises, all three are
  made.
\<close>

theorem teardown_in_order:
  assumes "openpty_r env = Inr (master, slave)" and "popen_r env = Inr pid"
    and "close_slave_r env = Inr ()"
    and "multiplex db master pid (iters env) = (tr, r)" and "r \<noteq> Unfinished"
  shows "fst (create_pty_session db environ env cmd cwd) =
     [(Openpty, None), (Popen cmd slave slave slave cwd (child_env environ cwd), None),
       (Close slave, None)]
     @ tr
     @ (case r of Raised e \<Rightarrow> fst (except_KeyboardInterrupt pid env e) | _ \<Rightarrow> [])
     @ fst (teardown master env)
   \<and> map fst (fst (teardown master env)) =
       Close master #
         (if close_master_r env = Inr ()
          then Terminate # (if terminate_r env = Inr () then [Wait] else [])
          else [])"
proof (intro conjI)
  show "fst (create_pty_session db environ env cmd cwd) =
     [(Openpty, None), (Popen cmd slave slave slave cwd (child_env environ cwd), None),
       (Close slave, None)]
     @ tr
     @ (case r of Raised e \<Rightarrow> fst (except_KeyboardInterrupt pid env e) | _ \<Rightarrow> [])
     @ fst (teardown master env)"
    unfolding create_pty_session_started [OF assms(1,2,3)] assms(4) Let_def
    using assms(5)
    by (cases r) (simp_all add: finally_block_def split: prod.splits sum.splits)
next
  show "map fst (fst (teardown master env)) =
       Close master #
         (if close_master_r env = Inr ()
          then Terminate # (if terminate_r env = Inr () then [Wait] else [])
          else [])"
    by (rule teardown_calls)
qed

theorem teardown_in_order_witness:
  "multiplex ascii_db 3 4242 (iters (calm [idle, idle\<lparr>poll_r := Inr (Some 0)\<rparr>]))
     = ([(Poll, None), (Select, None), (Poll, None)], Returned)
   \<and> map fst (fst (create_pty_session ascii_db [] (calm [idle, idle\<lparr>poll_r := Inr (Some 0)\<rparr>])
        [''/bin/sh'', ''-l''] ''/tmp'')) =
       [Openpty, Popen [''/bin/sh'', ''-l''] 4 4 4 ''/tmp'' (child_env [] ''/tmp''), Close 4,
        Poll, Select, Poll, Close 3, Terminate, Wait]"
proof -
  have m: "multiplex ascii_db 3 4242 (iters (calm [idle, idle\<lparr>poll_r := Inr (Some 0)\<rparr>]))
     = ([(Poll, None), (Select, None), (Poll, None)], Returned)"
    by (simp add: calm_def idle_def call_def then_do_def ready_list_def)
  have o: "openpty_r (calm [idle, idle\<lparr>poll_r := Inr (Some 0)\<rparr>]) = Inr (3, 4)"
    and p: "popen_r (calm [idle, idle\<lparr>poll_r := Inr (Some 0)\<rparr>]) = Inr 4242"
    and c: "close_slave_r (calm [idle, idle\<lparr>poll_r := Inr (Some 0)\<rparr>]) = Inr ()"
    and t: "close_master_r (calm [idle, idle\<lparr>poll_r := Inr (Some 0)\<rparr>]) = Inr ()"
      "terminate_r (calm [idle, idle\<lparr>poll_r := Inr (Some 0)\<rparr>]) = Inr ()"
    by (simp_all add: calm_def)
  have r: "Returned \<noteq> Unfinished" by simp
  from teardown_in_order [OF o p c m r, of "[]" "[''/bin/sh'', ''-l'']" "''/tmp''"] t
  have "map fst (fst (create_pty_session ascii_db [] (calm [idle, idle\<lparr>poll_r := Inr (Some 0)\<rparr>])
        [''/bin/sh'', ''-l''] ''/tmp'')) =
       [Openpty, Popen [''/bin/sh'', ''-l''] 4 4 4 ''/tmp'' (child_env [] ''/tmp''), Close 4,
        Poll, Select, Poll, Close 3, Terminate, Wait]"
    by simp
  with m show ?thesis by (intro conjI)
qed

text \<open>Against C5 as it is written: the child has exited, closing the master raises, and
  the bridge neither terminates the child nor waits for it.\<close>

theorem teardown_stops_counterexample:
  "create_pty_session ascii_db []
      ((calm [idle\<lparr>poll_r := Inr (Some 0)\<rparr>])\<lparr>close_master_r := Inl OSError\<rparr>)
      [''/bin/sh'', ''-l''] ''/tmp'' =
     ([(Openpty, None),
       (Popen [''/bin/sh'', ''-l''] 4 4 4 ''/tmp''
          [(''TERM'', ''xterm-256color''), (''COLORTERM'', ''truecolor''), (''PWD'', ''/tmp'')],
        None),
       (Close 4, None), (Poll, None), (Close 3, Some OSError)],
      Raised OSError)"
  by (simp add: create_pty_session_def calm_def idle_def call_def then_do_def ret_def
        child_env_def finally_block_def teardown_def)

end
